theory Spec2Isabelle
  imports Main "HOL-Library.AList"
begin

section \<open>JavaScript values\<close>

text \<open>
  The library handles values of type \<^verbatim>\<open>any\<close>: whatever \<^verbatim>\<open>res.json()\<close> parsed, and
  the caller's parameter objects. The values are those JSON can carry, and
  \<^verbatim>\<open>undefined\<close>. A number is carried by the text \<^verbatim>\<open>String(n)\<close> gives for it. An object is
  carried by its own enumerable properties in the order \<^verbatim>\<open>Object.entries\<close> lists them;
  an array by its elements and by the named properties assigned to it afterwards (none
  when it comes out of the JSON parser). An object of this kind has the prototype
  \<^verbatim>\<open>Object.prototype\<close>, an array \<^verbatim>\<open>Array.prototype\<close>, and no property of it is a function.
\<close>

datatype jsvalue =
    JUndefined
  | JNull
  | JBool bool
  | JNum string
  | JStr string
  | JArr "jsvalue list" "(string \<times> jsvalue) list"
  | JObj "(string \<times> jsvalue) list"

text \<open>
  What a \<^verbatim>\<open>throw\<close> or a rejected promise carries: \<^verbatim>\<open>new Error(message)\<close> of the
  library itself, or one of the platform's own exceptions, whose message texts differ
  between engines and are left out. \<open>RangeError\<close> is the engine's "Maximum call stack
  size exceeded".
\<close>

datatype exn = Error string | TypeError | SyntaxError | URIError | RangeError

fun string_of_nat :: "nat \<Rightarrow> string" where
  "string_of_nat n =
     (if n < 10 then [''0123456789'' ! n]
      else string_of_nat (n div 10) @ [''0123456789'' ! (n mod 10)])"

declare string_of_nat.simps [simp del]

definition indexed :: "'a list \<Rightarrow> (string \<times> 'a) list" where
  "indexed xs = zip (map string_of_nat [0..<length xs]) xs"

fun typeof :: "jsvalue \<Rightarrow> string" where
  "typeof JUndefined = ''undefined''"
| "typeof JNull = ''object''"
| "typeof (JBool b) = ''boolean''"
| "typeof (JNum n) = ''number''"
| "typeof (JStr s) = ''string''"
| "typeof (JArr xs ps) = ''object''"
| "typeof (JObj kvs) = ''object''"

fun truthy :: "jsvalue \<Rightarrow> bool" where
  "truthy JUndefined = False"
| "truthy JNull = False"
| "truthy (JBool b) = b"
| "truthy (JNum n) = (n \<noteq> ''0'' \<and> n \<noteq> ''NaN'')"
| "truthy (JStr s) = (s \<noteq> '''')"
| "truthy (JArr xs ps) = True"
| "truthy (JObj kvs) = True"

text \<open>The own enumerable string-keyed properties of a value; a primitive string has its
  characters, the other primitives have none.\<close>

fun own_entries :: "jsvalue \<Rightarrow> (string \<times> jsvalue) list" where
  "own_entries (JObj kvs) = kvs"
| "own_entries (JArr xs ps) = indexed xs @ ps"
| "own_entries (JStr s) = indexed (map (\<lambda>c. JStr [c]) s)"
| "own_entries v = []"

text \<open>\<^verbatim>\<open>Object.entries(v)\<close> throws a TypeError on \<^verbatim>\<open>null\<close> and \<^verbatim>\<open>undefined\<close>.\<close>

definition Object_entries :: "jsvalue \<Rightarrow> exn + (string \<times> jsvalue) list" where
  "Object_entries v =
     (if v = JUndefined \<or> v = JNull then Inl TypeError else Inr (own_entries v))"

text \<open>
  \<^verbatim>\<open>k in v\<close> and \<^verbatim>\<open>v[k]\<close> for an object or array \<open>v\<close>. The library uses them with the
  names \<^verbatim>\<open>status\<close>, \<^verbatim>\<open>error\<close>, \<^verbatim>\<open>ticker\<close> and \<^verbatim>\<open>address_in\<close>, which no prototype
  defines, and with the names \<^verbatim>\<open>Object.keys\<close> gave for the same object, so only own
  properties count. Every use of \<^verbatim>\<open>in\<close> but one stands behind a
  \<^verbatim>\<open>typeof v === "object"\<close> guard; the one that does not (in \<open>fetchData\<close>) has its
  TypeError written out there.
\<close>

definition has_key :: "string \<Rightarrow> jsvalue \<Rightarrow> bool" where
  "has_key k v = (k \<in> set (map fst (own_entries v)))"

definition get_prop :: "jsvalue \<Rightarrow> string \<Rightarrow> jsvalue" where
  "get_prop v k = (case map_of (own_entries v) k of Some x \<Rightarrow> x | None \<Rightarrow> JUndefined)"

text \<open>
  The assignment \<^verbatim>\<open>v[k] = x\<close> for the name \<^verbatim>\<open>status\<close>, which is not an array index and
  which no prototype defines. The sources are ES modules, hence strict code: assigning
  to a property of a primitive throws a TypeError, as it does on \<^verbatim>\<open>null\<close> and
  \<^verbatim>\<open>undefined\<close> in any mode. An existing property keeps its place, a new one goes last.
\<close>

fun set_prop :: "jsvalue \<Rightarrow> string \<Rightarrow> jsvalue \<Rightarrow> exn + jsvalue" where
  "set_prop (JObj kvs) k x = Inr (JObj (AList.update k x kvs))"
| "set_prop (JArr xs ps) k x = Inr (JArr xs (AList.update k x ps))"
| "set_prop v k x = Inl TypeError"

fun join_comma :: "string list \<Rightarrow> string" where
  "join_comma [] = []"
| "join_comma [s] = s"
| "join_comma (s # t # ss) = s @ '','' @ join_comma (t # ss)"

text \<open>Results computed one after the other: the first exception ends the run.\<close>

fun collect :: "(exn + 'a) list \<Rightarrow> exn + 'a list" where
  "collect [] = Inr []"
| "collect (r # rs) =
     (case r of
        Inl e \<Rightarrow> Inl e
      | Inr x \<Rightarrow> (case collect rs of Inl e \<Rightarrow> Inl e | Inr xs \<Rightarrow> Inr (x # xs)))"

text \<open>
  The conversion to a string that \<^verbatim>\<open>new Error\<close> and \<^verbatim>\<open>searchParams.append\<close> apply to
  their argument. An object is converted by its \<^verbatim>\<open>toString\<close>: the inherited one gives
  \<^verbatim>\<open>[object Object]\<close>, but an own property of that name, which is not a function, leaves
  the object without a string form, and the conversion throws a TypeError. An array is
  converted by \<^verbatim>\<open>Array.prototype.toString\<close>, which joins the converted elements
  (\<^verbatim>\<open>null\<close> and \<^verbatim>\<open>undefined\<close> as the empty string), unless an own \<^verbatim>\<open>toString\<close> or
  \<^verbatim>\<open>join\<close> stands in the way; the join of nested arrays is a native recursion, which
  the engine ends with a RangeError when its call stack is full. \<open>room\<close> is the number
  of nested joins the stack has room for.
\<close>

fun ToString :: "nat \<Rightarrow> jsvalue \<Rightarrow> exn + string" where
  "ToString room JUndefined = Inr ''undefined''"
| "ToString room JNull = Inr ''null''"
| "ToString room (JBool b) = Inr (if b then ''true'' else ''false'')"
| "ToString room (JNum n) = Inr n"
| "ToString room (JStr s) = Inr s"
| "ToString room (JObj kvs) =
     (if ''toString'' \<in> set (map fst kvs) then Inl TypeError else Inr ''[object Object]'')"
| "ToString room (JArr xs ps) =
     (if ''toString'' \<in> set (map fst ps) then Inl TypeError
      else if ''join'' \<in> set (map fst ps) then Inr ''[object Array]''
      else case room of
             0 \<Rightarrow> Inl RangeError
           | Suc r \<Rightarrow>
               (case collect (map (\<lambda>x. if x = JUndefined \<or> x = JNull then Inr []
                                        else ToString r x) xs) of
                  Inl e \<Rightarrow> Inl e
                | Inr ss \<Rightarrow> Inr (join_comma ss)))"

text \<open>\<^verbatim>\<open>String(v)\<close> where the code has checked that \<open>v\<close> is a string or a number.\<close>

fun String_of_primitive :: "jsvalue \<Rightarrow> string" where
  "String_of_primitive (JStr s) = s"
| "String_of_primitive (JNum n) = n"
| "String_of_primitive v = []"

text \<open>What \<^verbatim>\<open>throw new Error(v)\<close> throws: the Error, with the string form of \<open>v\<close> as its
  message (the empty message for \<^verbatim>\<open>undefined\<close>), or what the conversion of \<open>v\<close> throws.\<close>

definition new_Error :: "nat \<Rightarrow> jsvalue \<Rightarrow> exn" where
  "new_Error room v =
     (if v = JUndefined then Error []
      else case ToString room v of Inl e \<Rightarrow> e | Inr s \<Rightarrow> Error s)"

section \<open>Objects used as dictionaries\<close>

text \<open>
  The accumulator \<^verbatim>\<open>coins\<close> is an object that the flattener assigns into under
  computed names: its own properties, as a finite map, and its prototype, which is
  \<^verbatim>\<open>Object.prototype\<close> for the object literal \<^verbatim>\<open>{}\<close>.

  An assignment \<^verbatim>\<open>o[k] = v\<close> looks \<open>k\<close> up along the prototype chain. Every property it
  can meet there is a writable data property, and the assignment then stores \<open>v\<close> as an
  own property of \<open>o\<close>, but for one: the accessor \<^verbatim>\<open>__proto__\<close> of \<^verbatim>\<open>Object.prototype\<close>.
  When the lookup of \<^verbatim>\<open>__proto__\<close> reaches it (no own property of that name on \<open>o\<close>, nor
  on a prototype given to \<open>o\<close> before), its setter runs: an object or \<^verbatim>\<open>null\<close> becomes the
  prototype of \<open>o\<close>, any other value is dropped, and nothing is stored.
\<close>

datatype prototype = ObjectPrototype | ProtoValue jsvalue | ProtoNull

record jsobject =
  own :: "string \<rightharpoonup> jsvalue"
  proto :: prototype

definition empty_object :: jsobject where
  "empty_object = \<lparr>own = Map.empty, proto = ObjectPrototype\<rparr>"

definition setter_reached :: "jsobject \<Rightarrow> bool" where
  "setter_reached ob =
     (own ob ''__proto__'' = None \<and>
      (case proto ob of
         ObjectPrototype \<Rightarrow> True
       | ProtoValue p \<Rightarrow> \<not> has_key ''__proto__'' p
       | ProtoNull \<Rightarrow> False))"

definition assign :: "jsobject \<Rightarrow> string \<Rightarrow> jsvalue \<Rightarrow> jsobject" where
  "assign ob k v =
     (if k = ''__proto__'' \<and> setter_reached ob then
        (if truthy v \<and> typeof v = ''object'' then ob\<lparr>proto := ProtoValue v\<rparr>
         else if v = JNull then ob\<lparr>proto := ProtoNull\<rparr>
         else ob)
      else ob\<lparr>own := (own ob)(k \<mapsto> v)\<rparr>)"

section \<open>URLs, requests and the platform\<close>

text \<open>A \<^verbatim>\<open>URL\<close> object, by the parts the library touches.\<close>

record url =
  origin :: string
  pathname :: string
  searchParams :: "(string \<times> string) list"

text \<open>
  The setter of \<^verbatim>\<open>pathname\<close>, as the URL Standard defines it for an \<^verbatim>\<open>https\<close> URL: the
  value is parsed again from the path start state. Tabs and newlines are removed; one
  leading slash or backslash is skipped; the rest is cut into segments at every slash
  and backslash; in each segment the characters of the path percent-encode set are replaced by
  \<^verbatim>\<open>%XX\<close>; a single-dot segment is dropped and a double-dot segment removes the segment
  before it (either leaves an empty segment when it is the last one). The getter gives
  \<^verbatim>\<open>/\<close> followed by the segment, for each segment. A string is read as UTF-8 bytes.
\<close>

definition path_separator :: "char \<Rightarrow> bool" where
  "path_separator c = (c = CHR ''/'' \<or> c = CHR 0x5C)"

definition tab_or_newline :: "char \<Rightarrow> bool" where
  "tab_or_newline c = (c = CHR 0x09 \<or> c = CHR 0x0A \<or> c = CHR 0x0D)"

definition path_percent_encoded :: "char \<Rightarrow> bool" where
  "path_percent_encoded c =
     ((of_char c :: nat) < 32 \<or> 126 < (of_char c :: nat) \<or>
      (of_char c :: nat) \<in> set [32, 34, 35, 60, 62, 63, 94, 96, 123, 125])"

definition percent_encode :: "char \<Rightarrow> string" where
  "percent_encode c =
     (if path_percent_encoded c
      then [CHR ''%'', ''0123456789ABCDEF'' ! ((of_char c :: nat) div 16),
            ''0123456789ABCDEF'' ! ((of_char c :: nat) mod 16)]
      else [c])"

fun split_path :: "string \<Rightarrow> string list" where
  "split_path [] = [[]]"
| "split_path (c # cs) =
     (if path_separator c then [] # split_path cs
      else (case split_path cs of [] \<Rightarrow> [[c]] | s # ss \<Rightarrow> (c # s) # ss))"

definition single_dot :: "string \<Rightarrow> bool" where
  "single_dot s = (s \<in> set [''.'', ''%2e'', ''%2E''])"

definition double_dot :: "string \<Rightarrow> bool" where
  "double_dot s =
     (s \<in> set [''..'', ''.%2e'', ''.%2E'', ''%2e.'', ''%2E.'',
                ''%2e%2e'', ''%2e%2E'', ''%2E%2e'', ''%2E%2E''])"

fun path_state :: "string list \<Rightarrow> string list \<Rightarrow> string list" where
  "path_state [] path = path"
| "path_state (buffer # rest) path =
     (if double_dot buffer
      then path_state rest (butlast path @ (if rest = [] then [[]] else []))
      else if single_dot buffer
      then path_state rest (path @ (if rest = [] then [[]] else []))
      else path_state rest (path @ [buffer]))"

definition URL_set_pathname :: "string \<Rightarrow> string" where
  "URL_set_pathname v =
     (let input = filter (\<lambda>c. \<not> tab_or_newline c) v;
          input' = (case input of
                      [] \<Rightarrow> []
                    | c # cs \<Rightarrow> if path_separator c then cs else input);
          buffers = map (\<lambda>s. concat (map percent_encode s)) (split_path input')
      in concat (map (\<lambda>s. ''/'' @ s) (path_state buffers [])))"

record request_init =
  http_method :: string
  headers :: "(string \<times> string) list"
  credentials :: string

type_synonym request = "url \<times> request_init"

text \<open>
  What \<^verbatim>\<open>fetch\<close> followed by \<^verbatim>\<open>res.json()\<close> comes to: the promise of \<^verbatim>\<open>fetch\<close> is
  rejected, or there is a response with its status code and the outcome of parsing its
  body (\<open>None\<close> when the body is not JSON).
\<close>

datatype netresult = Rejected exn | Responded nat "jsvalue option"

text \<open>
  The platform, as far as the library depends on it: \<^verbatim>\<open>new URL(s)\<close> for a string of the
  caller (\<open>None\<close> for its TypeError), \<^verbatim>\<open>url.toString()\<close>, \<^verbatim>\<open>encodeURI\<close> (\<open>None\<close> for its
  URIError), the network, whose answer may depend on the requests made before, and the
  room on the call stack: for how many nested calls of the flattener, and for how many
  nested array joins.
\<close>

record platform =
  parseURL :: "string \<Rightarrow> url option"
  href :: "url \<Rightarrow> string"
  encodeURI :: "string \<Rightarrow> string option"
  net :: "request list \<Rightarrow> request \<Rightarrow> netresult"
  flatten_room :: nat
  join_room :: nat

text \<open>The effects of the library outside an instance: the requests sent, in order, and
  what \<^verbatim>\<open>console.error\<close> was given.\<close>

record world =
  requests :: "request list"
  console :: "exn list"

definition res_ok :: "nat \<Rightarrow> bool" where
  "res_ok st = (200 \<le> st \<and> st \<le> 299)"

section \<open>fetch.ts\<close>

definition isValidSuccessResp :: "jsvalue \<Rightarrow> bool" where
  "isValidSuccessResp response =
     (truthy response \<and> typeof response = ''object'' \<and> has_key ''status'' response \<and>
      get_prop response ''status'' = JStr ''success'')"

definition fetchData :: "platform \<Rightarrow> url \<Rightarrow> request_init \<Rightarrow> world \<Rightarrow> (exn + jsvalue) \<times> world" where
  "fetchData P u fetchParams w =
     (let w1 = w\<lparr>requests := requests w @ [(u, fetchParams)]\<rparr>;
          attempt =
            (case net P (requests w) (u, fetchParams) of
               Rejected e \<Rightarrow> Inl e
             | Responded st body \<Rightarrow>
                 (case body of
                    None \<Rightarrow> Inl SyntaxError
                  | Some resp \<Rightarrow>
                      if \<not> res_ok st then
                        (if truthy resp then
                           (if typeof resp \<noteq> ''object'' then Inl TypeError
                            else if has_key ''error'' resp
                            then Inl (new_Error (join_room P) (get_prop resp ''error''))
                            else Inl (new_Error (join_room P)
                                        (JStr (''HTTP error! Status: '' @ string_of_nat st))))
                         else Inl (new_Error (join_room P)
                                     (JStr (''HTTP error! Status: '' @ string_of_nat st))))
                      else
                        (case set_prop resp ''status'' (JStr ''success'') of
                           Inl e \<Rightarrow> Inl e
                         | Inr resp' \<Rightarrow>
                             if \<not> isValidSuccessResp resp'
                             then Inl (Error ''Invalid success response structure'')
                             else Inr resp')))
      in case attempt of
           Inl error \<Rightarrow> (Inl error, w1\<lparr>console := console w1 @ [error]\<rparr>)
         | Inr resp \<Rightarrow> (Inr resp, w1))"

section \<open>utils.ts\<close>

text \<open>
  \<open>processServiceInfo\<close> assigns into \<^verbatim>\<open>coins\<close> in place and returns nothing: the result
  is \<^verbatim>\<open>coins\<close> after the call, with what the call threw, if it did. The loop runs over
  \<^verbatim>\<open>Object.entries(info)\<close>, which throws on \<^verbatim>\<open>null\<close> and \<^verbatim>\<open>undefined\<close>; an exception
  ends the loop. The recursion is a native one: \<open>room\<close> is the number of nested calls
  the call stack has room for, and a call for which there is none ends in a RangeError.
\<close>

fun processServiceInfo ::
  "nat \<Rightarrow> jsvalue \<Rightarrow> jsobject \<Rightarrow> string \<Rightarrow> exn option \<times> jsobject" where
  "processServiceInfo 0 info coins prefix = (Some RangeError, coins)"
| "processServiceInfo (Suc room) info coins prefix =
     (case Object_entries info of
        Inl e \<Rightarrow> (Some e, coins)
      | Inr entries \<Rightarrow>
          foldl (\<lambda>(thrown, coins) (key, val).
                   if thrown \<noteq> None then (thrown, coins)
                   else if truthy val \<and> typeof val = ''object'' \<and> has_key ''ticker'' val
                   then (None, assign coins (prefix @ key) (get_prop val ''ticker''))
                   else if truthy val \<and> typeof val = ''object''
                   then processServiceInfo room val coins (prefix @ key @ ''_'')
                   else (None, coins))
                (None, coins) entries)"


section \<open>index.ts\<close>

text \<open>
  An instance of the class \<^verbatim>\<open>CryptAPI\<close>. The fields declared \<^verbatim>\<open>readonly\<close> are part of the
  state all the same: that no method writes them is a property of the methods. The
  parameter objects are carried by their entries. \<^verbatim>\<open>paymentAddress\<close> is declared a
  string and holds whatever \<^verbatim>\<open>address_in\<close> the gateway's answer had.
\<close>

record CryptAPI =
  paymentAddress :: jsvalue
  coin :: string
  ownAddress :: string
  callbackUrl :: string
  parameters :: "(string \<times> jsvalue) list"
  caParams :: "(string \<times> jsvalue) list"

definition baseURL :: string where
  "baseURL = ''https://api.cryptapi.io''"

text \<open>\<^verbatim>\<open>new URL(this.baseURL)\<close>, what the platform's parser gives for the constant.\<close>

definition new_URL_baseURL :: url where
  "new_URL_baseURL = \<lparr>origin = baseURL, pathname = ''/'', searchParams = []\<rparr>"

text \<open>\<^verbatim>\<open>s.replace(c, r)\<close> with a one-character string pattern: the first occurrence only.\<close>

fun String_replace :: "string \<Rightarrow> char \<Rightarrow> string \<Rightarrow> string" where
  "String_replace [] c r = []"
| "String_replace (x # xs) c r = (if x = c then r @ xs else x # String_replace xs c r)"

text \<open>\<^verbatim>\<open>u.searchParams.append(k, v)\<close> converts \<open>v\<close> to a string, which can throw, and adds
  the pair; \<open>append_pair\<close> is the case of a \<open>v\<close> that is a string already.\<close>

definition append_pair :: "url \<Rightarrow> string \<Rightarrow> string \<Rightarrow> url" where
  "append_pair u k s = u\<lparr>searchParams := searchParams u @ [(k, s)]\<rparr>"

definition searchParams_append :: "nat \<Rightarrow> url \<Rightarrow> string \<Rightarrow> jsvalue \<Rightarrow> exn + url" where
  "searchParams_append room u k v =
     (case ToString room v of Inl e \<Rightarrow> Inl e | Inr s \<Rightarrow> Inr (append_pair u k s))"

text \<open>
  Each method is a function of the platform, its arguments and the world, and returns its
  outcome (\<open>Inl\<close> what it throws, \<open>Inr\<close> what it returns) with the world after it; a
  method of an instance also returns the instance after it. A method is run to its end
  before the next one starts: the interleaving of pending promises is outside the model.
  In \<open>makeRequest\<close> an exception of the \<^verbatim>\<open>forEach\<close> over the parameters ends the method
  before \<open>fetchData\<close> is called.
\<close>

definition makeRequest ::
  "platform \<Rightarrow> string \<Rightarrow> string option \<Rightarrow> (string \<times> jsvalue) list option \<Rightarrow> world
     \<Rightarrow> (exn + jsvalue) \<times> world" where
  "makeRequest P endpoint coin_opt params w =
     (let url0 = new_URL_baseURL;
          url1 = url0\<lparr>pathname := URL_set_pathname (pathname url0 @
                   (case coin_opt of
                      Some c \<Rightarrow>
                        if c \<noteq> [] then String_replace c CHR ''_'' ''/'' @ ''/'' @ endpoint @ ''/''
                        else endpoint @ ''/''
                    | None \<Rightarrow> endpoint @ ''/''))\<rparr>;
          url2 = (case params of
                    Some ps \<Rightarrow>
                      foldl (\<lambda>acc key.
                               case acc of
                                 Inl e \<Rightarrow> Inl e
                               | Inr u \<Rightarrow>
                                   searchParams_append (join_room P) u key (get_prop (JObj ps) key))
                            (Inr url1) (map fst ps)
                  | None \<Rightarrow> Inr url1)
      in case url2 of
           Inl e \<Rightarrow> (Inl e, w)
         | Inr u \<Rightarrow>
             fetchData P u
               \<lparr>http_method = ''GET'', headers = [(''Referer'', baseURL)], credentials = ''include''\<rparr>
               w)"

definition fetchServiceInfo :: "platform \<Rightarrow> bool \<Rightarrow> world \<Rightarrow> (exn + jsvalue) \<times> world" where
  "fetchServiceInfo P prices w =
     makeRequest P ''info'' None (Some [(''prices'', JNum (if prices then ''1'' else ''0''))]) w"

text \<open>The destructuring \<^verbatim>\<open>const { k, ...rest } = v\<close>: \<open>rest\<close> is a new object with the own
  properties of \<open>v\<close> but \<open>k\<close>; it throws a TypeError on \<^verbatim>\<open>null\<close> and \<^verbatim>\<open>undefined\<close>.\<close>

definition rest_without :: "string \<Rightarrow> jsvalue \<Rightarrow> exn + jsvalue" where
  "rest_without k v =
     (if v = JUndefined \<or> v = JNull then Inl TypeError
      else Inr (JObj (AList.delete k (own_entries v))))"

text \<open>The result is \<open>None\<close> for \<^verbatim>\<open>null\<close>. The \<^verbatim>\<open>try\<close> covers the info call and the
  destructuring; the flattening stands after it, and what it throws is not caught.\<close>

definition fetchSupportedCoins :: "platform \<Rightarrow> world \<Rightarrow> (exn + jsobject option) \<times> world" where
  "fetchSupportedCoins P w =
     (case fetchServiceInfo P False w of
        (Inl e, w') \<Rightarrow> (Inr None, w')
      | (Inr r, w') \<Rightarrow>
          (case rest_without ''fee_tiers'' r of
             Inl e \<Rightarrow> (Inr None, w')
           | Inr info \<Rightarrow>
               (case processServiceInfo (flatten_room P) info empty_object [] of
                  (Some e, coins) \<Rightarrow> (Inl e, w')
                | (None, coins) \<Rightarrow> (Inr (Some coins), w'))))"

text \<open>
  The constructor starts \<open>fetchSupportedCoins\<close>, whose request goes out at once, and does
  not wait for it: the check of the coin that follows runs in a callback whose exception
  reaches no caller, so the model keeps the request and drops the outcome.
\<close>

definition CryptAPI_new ::
  "platform \<Rightarrow> string \<Rightarrow> string \<Rightarrow> string \<Rightarrow> (string \<times> jsvalue) list
     \<Rightarrow> (string \<times> jsvalue) list \<Rightarrow> world \<Rightarrow> CryptAPI \<times> world" where
  "CryptAPI_new P c a cb ps cas w =
     (\<lparr>paymentAddress = JStr [], coin = c, ownAddress = a, callbackUrl = cb,
       parameters = ps, caParams = cas\<rparr>,
      snd (fetchSupportedCoins P w))"

definition getAddress ::
  "platform \<Rightarrow> CryptAPI \<Rightarrow> world \<Rightarrow> (exn + jsvalue) \<times> CryptAPI \<times> world" where
  "getAddress P this w =
     (if coin this = [] then (Inl (Error ''Coin not set''), this, w)
      else if callbackUrl this = [] then (Inl (Error ''Callback URL not set''), this, w)
      else if ownAddress this = [] then (Inl (Error ''Address not set''), this, w)
      else
        (case parseURL P (callbackUrl this) of
           None \<Rightarrow> (Inl TypeError, this, w)
         | Some cbUrl0 \<Rightarrow>
             (let cbUrl =
                    foldl (\<lambda>u (k, v).
                             if typeof v = ''string'' \<or> typeof v = ''number''
                             then append_pair u k (String_of_primitive v) else u)
                          cbUrl0 (parameters this)
              in case encodeURI P (href P cbUrl) of
                   None \<Rightarrow> (Inl URIError, this, w)
                 | Some callback \<Rightarrow>
                     (case makeRequest P ''create'' (Some (coin this))
                             (Some (AList.update ''address'' (JStr (ownAddress this))
                                     (AList.update ''callback'' (JStr callback) (caParams this))))
                             w of
                        (Inl e, w') \<Rightarrow> (Inl e, this, w')
                      | (Inr resp, w') \<Rightarrow>
                          (let addressIn = get_prop resp ''address_in''
                           in (Inr addressIn, this\<lparr>paymentAddress := addressIn\<rparr>, w'))))))"

definition checkLogs ::
  "platform \<Rightarrow> CryptAPI \<Rightarrow> world \<Rightarrow> (exn + jsvalue) \<times> CryptAPI \<times> world" where
  "checkLogs P this w =
     (if coin this = [] \<or> callbackUrl this = []
      then (Inl (Error ''Coin or callback URL not set''), this, w)
      else
        (case parseURL P (callbackUrl this) of
           None \<Rightarrow> (Inl TypeError, this, w)
         | Some cbUrl0 \<Rightarrow>
             (let cbUrl =
                    foldl (\<lambda>u (k, v).
                             if typeof v = ''string'' \<or> typeof v = ''number''
                             then append_pair u k (String_of_primitive v) else u)
                          cbUrl0 (parameters this)
              in case encodeURI P (href P cbUrl) of
                   None \<Rightarrow> (Inl URIError, this, w)
                 | Some callback \<Rightarrow>
                     (case makeRequest P ''logs'' (Some (coin this))
                             (Some [(''callback'', JStr callback)]) w of
                        (r, w') \<Rightarrow> (r, this, w')))))"

text \<open>\<^verbatim>\<open>size\<close> has the default 512, which stands in for an undefined argument.\<close>

definition fetchQRCode ::
  "platform \<Rightarrow> CryptAPI \<Rightarrow> jsvalue \<Rightarrow> jsvalue \<Rightarrow> world \<Rightarrow> (exn + jsvalue) \<times> CryptAPI \<times> world" where
  "fetchQRCode P this val size_arg w =
     (let sz = (if size_arg = JUndefined then JNum ''512'' else size_arg)
      in if coin this = [] then (Inl (Error ''Coin not set''), this, w)
         else if ownAddress this = [] then (Inl (Error ''Address not set''), this, w)
         else
           (case makeRequest P ''qrcode'' (Some (coin this))
                   (Some [(''value'', val), (''size'', sz), (''address'', paymentAddress this)]) w of
              (r, w') \<Rightarrow> (r, this, w')))"

definition fetchEstimatedFees ::
  "platform \<Rightarrow> string \<Rightarrow> jsvalue \<Rightarrow> jsvalue \<Rightarrow> world \<Rightarrow> (exn + jsvalue) \<times> world" where
  "fetchEstimatedFees P c addresses_arg priority_arg w =
     (let addresses = (if addresses_arg = JUndefined then JNum ''1'' else addresses_arg);
          priority = (if priority_arg = JUndefined then JStr ''default'' else priority_arg)
      in makeRequest P ''estimate'' (Some c)
           (Some [(''addresses'', addresses), (''priority'', priority)]) w)"

definition fetchConversion ::
  "platform \<Rightarrow> string \<Rightarrow> jsvalue \<Rightarrow> string \<Rightarrow> world \<Rightarrow> (exn + jsvalue) \<times> world" where
  "fetchConversion P c val from_arg w =
     makeRequest P ''convert'' (Some c) (Some [(''value'', val), (''from'', JStr from_arg)]) w"

section \<open>The flattener in the words of the specification\<close>

text \<open>A non-null object, in the sense of \<^verbatim>\<open>typeof\<close>: an object or an array.\<close>

definition is_object :: "jsvalue \<Rightarrow> bool" where
  "is_object v = (typeof v = ''object'' \<and> v \<noteq> JNull)"

lemma size_entry_less:
  "(k, v) \<in> set kvs \<Longrightarrow> size v < Suc (size_list (size_prod (\<lambda>x. 0) size) kvs)"
  by (induction kvs) auto

lemma size_elem_less: "v \<in> set xs \<Longrightarrow> size v < Suc (size_list size xs)"
  by (induction xs) auto

lemma own_entries_smaller:
  assumes "(k, v) \<in> set (own_entries info)" and "typeof v = ''object''"
  shows "size v < size info"
proof (cases info)
  case (JObj kvs)
  with assms(1) show ?thesis
    using size_entry_less [of k v kvs] by simp
next
  case (JArr xs ps)
  with assms(1) have "v \<in> set xs \<or> (k, v) \<in> set ps"
    by (auto simp: indexed_def dest: set_zip_rightD)
  with JArr show ?thesis
    using size_elem_less [of v xs] size_entry_less [of k v ps] by auto
next
  case (JStr s)
  with assms(1) have "v \<in> set (map (\<lambda>c. JStr [c]) s)"
    by (auto simp: indexed_def dest: set_zip_rightD)
  with assms(2) show ?thesis
    by auto
qed (use assms(1) in simp_all)

text \<open>
  The flattener as the specification words it, to be compared with \<open>processServiceInfo\<close>:
  for each key/value pair in key order, an object containing a \<^verbatim>\<open>ticker\<close> field gives the
  record \<open>prefix + key \<mapsto> ticker\<close>, a non-null object lacking one gives the records
  found in it under the prefix \<open>prefix + key + "_"\<close>, and a scalar or \<^verbatim>\<open>null\<close> gives none.
  \<open>record_coin\<close> assigns one record into the accumulator.
\<close>

function coin_records :: "string \<Rightarrow> jsvalue \<Rightarrow> (string \<times> jsvalue) list" where
  "coin_records prefix info =
     concat (map (\<lambda>(key, val).
                    if is_object val \<and> has_key ''ticker'' val
                    then [(prefix @ key, get_prop val ''ticker'')]
                    else if is_object val
                    then coin_records (prefix @ key @ ''_'') val
                    else [])
                 (own_entries info))"
  by pat_completeness auto
termination
proof (relation "measure (\<lambda>(prefix, info). size info)")
  show "wf (measure (\<lambda>(prefix, info). size info))"
    by simp
next
  fix prefix :: string and info kv key val
  assume "kv \<in> set (own_entries info)" and "(key, val) = kv" and "is_object val"
  then have "(key, val) \<in> set (own_entries info)" and "typeof val = ''object''"
    by (auto simp: is_object_def)
  then have "size val < size info"
    by (rule own_entries_smaller)
  then show "((prefix @ key @ ''_'', val), (prefix, info)) \<in> measure (\<lambda>(prefix, info). size info)"
    by simp
qed

declare coin_records.simps [simp del]

definition record_coin :: "jsobject \<Rightarrow> string \<times> jsvalue \<Rightarrow> jsobject" where
  "record_coin coins r = assign coins (fst r) (snd r)"

text \<open>
  How many calls of the flattener are nested, at most, in its run on a value: one for the
  value, and those of the deepest object lacking a \<^verbatim>\<open>ticker\<close> field in it.
\<close>

function nesting :: "jsvalue \<Rightarrow> nat" where
  "nesting info =
     Suc (foldr max (map (\<lambda>(key, val).
                            if is_object val \<and> \<not> has_key ''ticker'' val then nesting val else 0)
                         (own_entries info)) 0)"
  by pat_completeness auto
termination
proof (relation "measure size")
  show "wf (measure size)"
    by simp
next
  fix info :: jsvalue and kv key val
  assume "kv \<in> set (own_entries info)" and "(key, val) = kv"
    and "is_object val \<and> \<not> has_key ''ticker'' val"
  then have "(key, val) \<in> set (own_entries info)" and "typeof val = ''object''"
    by (auto simp: is_object_def)
  then have "size val < size info"
    by (rule own_entries_smaller)
  then show "(val, info) \<in> measure size"
    by simp
qed

declare nesting.simps [simp del]

section \<open>Notions for the statements, and examples\<close>

text \<open>
  For the statements: the URL up to its query, the URL of the last request sent, the
  request descriptor \<open>makeRequest\<close> hands to \<open>fetchData\<close>, the URL it builds for an
  endpoint, a coin and converted query parameters, the query parameters as
  \<open>makeRequest\<close> converts them (or what the first conversion that fails throws), and the
  path segments that the URL parser stores as they are.
\<close>

definition target :: "url \<Rightarrow> string" where
  "target u = origin u @ pathname u"

definition sent_url :: "world \<Rightarrow> url" where
  "sent_url w = fst (last (requests w))"

definition GET_init :: request_init where
  "GET_init =
     \<lparr>http_method = ''GET'', headers = [(''Referer'', baseURL)], credentials = ''include''\<rparr>"

definition request_url :: "string \<Rightarrow> string option \<Rightarrow> (string \<times> string) list \<Rightarrow> url" where
  "request_url endpoint coin_opt q =
     \<lparr>origin = baseURL,
      pathname = URL_set_pathname (''/'' @
                   (case coin_opt of
                      Some c \<Rightarrow>
                        if c \<noteq> [] then String_replace c CHR ''_'' ''/'' @ ''/'' @ endpoint @ ''/''
                        else endpoint @ ''/''
                    | None \<Rightarrow> endpoint @ ''/'')),
      searchParams = q\<rparr>"

definition query_strings :: "nat \<Rightarrow> (string \<times> jsvalue) list \<Rightarrow> exn + (string \<times> string) list" where
  "query_strings room ps =
     collect (map (\<lambda>key. case ToString room (get_prop (JObj ps) key) of
                            Inl e \<Rightarrow> Inl e
                          | Inr s \<Rightarrow> Inr (key, s))
                  (map fst ps))"

definition plain_char :: "char \<Rightarrow> bool" where
  "plain_char c = (\<not> path_separator c \<and> \<not> path_percent_encoded c)"

definition plain_segment :: "string \<Rightarrow> bool" where
  "plain_segment s = (list_all plain_char s \<and> \<not> single_dot s \<and> \<not> double_dot s)"

text \<open>Fixtures for the examples: a platform whose network gives one fixed answer, whose
  URL parser accepts every string as a path on an example origin, and the empty world.\<close>

definition example_platform :: "netresult \<Rightarrow> platform" where
  "example_platform r =
     \<lparr>parseURL = (\<lambda>s. Some \<lparr>origin = ''https://example.com'', pathname = s, searchParams = []\<rparr>),
      href = (\<lambda>u. origin u @ pathname u),
      encodeURI = Some,
      net = (\<lambda>before req. r),
      flatten_room = 1000,
      join_room = 1000\<rparr>"

definition world0 :: world where
  "world0 = \<lparr>requests = [], console = []\<rparr>"

definition example_url :: url where
  "example_url = \<lparr>origin = ''https://api.cryptapi.io'', pathname = ''/info/'', searchParams = []\<rparr>"

text \<open>Two inputs for the examples: one where two coin records get the same path, and a
  service info of the usual shape with a base coin, a chain with two tokens, a scalar and
  a \<^verbatim>\<open>null\<close>.\<close>

definition colliding_info :: jsvalue where
  "colliding_info =
     JObj [(''a_b'', JObj [(''ticker'', JStr ''X'')]),
           (''a'', JObj [(''b'', JObj [(''ticker'', JStr ''Y'')])])]"

definition example_info :: jsvalue where
  "example_info =
     JObj [(''btc'', JObj [(''coin'', JStr ''Bitcoin''), (''ticker'', JStr ''btc'')]),
           (''polygon'',
              JObj [(''usdt'', JObj [(''ticker'', JStr ''usdt'')]),
                    (''matic'', JObj [(''ticker'', JStr ''matic'')])]),
           (''note'', JStr ''scalar''),
           (''nothing'', JNull)]"

text \<open>An instance for the examples, as the tests build one.\<close>

definition example_instance :: CryptAPI where
  "example_instance =
     \<lparr>paymentAddress = JStr [], coin = ''polygon_usdt'', ownAddress = ''0xA6B7'',
      callbackUrl = ''/hook'', parameters = [(''order_id'', JNum ''12345'')],
      caParams = [(''multi_chain'', JNum ''1'')]\<rparr>"

text \<open>A gateway that answers every request with a created address, and one whose
  \<^verbatim>\<open>address_in\<close> is an object with a \<^verbatim>\<open>toString\<close> property of its own.\<close>

definition example_answer :: netresult where
  "example_answer =
     Responded 200 (Some (JObj [(''status'', JStr ''success''), (''address_in'', JStr ''0xIN''),
                                (''address_out'', JStr ''0xA6B7'')]))"


text \<open>An answer of the info endpoint: the fee tiers, a base coin and a chain with a token.
  And answers of any depth: \<open>n\<close> objects nested in one another, none with a
  \<^verbatim>\<open>ticker\<close> field, around an empty one.\<close>

fun deep :: "nat \<Rightarrow> jsvalue" where
  "deep 0 = JObj []"
| "deep (Suc n) = JObj [(''chain'', deep n)]"

definition example_service_info :: jsvalue where
  "example_service_info =
     JObj [(''fee_tiers'', JArr [JObj [(''minimum'', JStr ''0''), (''fee'', JStr ''1.0'')]] []),
           (''btc'', JObj [(''coin'', JStr ''Bitcoin''), (''ticker'', JStr ''btc'')]),
           (''polygon'', JObj [(''usdt'', JObj [(''ticker'', JStr ''usdt'')])])]"


section \<open>Properties of the response normalizer\<close>

lemma has_key_update: "has_key k (JObj (AList.update k x kvs))"
  by (simp add: has_key_def AList.dom_update)

lemma get_prop_update: "get_prop (JObj (AList.update k x kvs)) k = x"
  by (simp add: get_prop_def AList.update_conv')

lemma string_of_nat_digits: "set (string_of_nat n) \<subseteq> set ''0123456789''"
proof (induction n rule: string_of_nat.induct)
  case (1 n)
  have digit: "''0123456789'' ! d \<in> set ''0123456789''" if "d < 10" for d :: nat
    using that nth_mem [of d "''0123456789''"] by simp
  show ?case
  proof (cases "n < 10")
    case True
    then show ?thesis
      using digit [of n] by (subst string_of_nat.simps) simp
  next
    case False
    have "n mod 10 < 10" by simp
    with False "1" digit [of "n mod 10"] show ?thesis
      by (subst string_of_nat.simps) simp
  qed
qed

lemma indexed_keys_digits:
  assumes "k \<in> fst ` set (indexed xs)"
  shows "set k \<subseteq> set ''0123456789''"
proof -
  from assms obtain v where "(k, v) \<in> set (indexed xs)"
    by auto
  then have "k \<in> set (map string_of_nat [0..<length xs])"
    unfolding indexed_def by (rule set_zip_leftD)
  then obtain n where "k = string_of_nat n"
    by auto
  then show ?thesis
    by (simp only: string_of_nat_digits)
qed

lemma indexed_no_name:
  "\<not> set k \<subseteq> set ''0123456789'' \<Longrightarrow> map_of (indexed xs) k = None"
  using indexed_keys_digits [of k xs] by (auto simp: map_of_eq_None_iff)

lemma set_status_valid:
  "set_prop resp ''status'' (JStr ''success'') = Inr resp' \<Longrightarrow> isValidSuccessResp resp'"
proof (cases resp)
  case (JObj kvs)
  assume "set_prop resp ''status'' (JStr ''success'') = Inr resp'"
  with JObj show ?thesis
    by (auto simp: isValidSuccessResp_def has_key_update get_prop_update)
next
  case (JArr xs ps)
  assume "set_prop resp ''status'' (JStr ''success'') = Inr resp'"
  with JArr have r: "resp' = JArr xs (AList.update ''status'' (JStr ''success'') ps)"
    by auto
  have "map_of (indexed xs) ''status'' = None"
    by (rule indexed_no_name) simp
  then show ?thesis
    unfolding r
    by (simp add: isValidSuccessResp_def has_key_def get_prop_def AList.dom_update
          AList.update_conv' map_add_def map_of_append image_Un)
qed simp_all

lemma set_prop_Inl: "set_prop v k x = Inl e \<Longrightarrow> e = TypeError"
  by (cases v) simp_all

lemma fetchData_fst_Responded:
  assumes "net P (requests w) (u, fp) = Responded st (Some resp)"
  shows "fst (fetchData P u fp w) =
     (if \<not> res_ok st then
        (if truthy resp then
           (if typeof resp \<noteq> ''object'' then Inl TypeError
            else if has_key ''error'' resp
            then Inl (new_Error (join_room P) (get_prop resp ''error''))
            else Inl (new_Error (join_room P)
                        (JStr (''HTTP error! Status: '' @ string_of_nat st))))
         else Inl (new_Error (join_room P)
                     (JStr (''HTTP error! Status: '' @ string_of_nat st))))
      else
        (case set_prop resp ''status'' (JStr ''success'') of
           Inl e \<Rightarrow> Inl e
         | Inr resp' \<Rightarrow>
             if \<not> isValidSuccessResp resp'
             then Inl (Error ''Invalid success response structure'')
             else Inr resp'))"
  using assms by (simp add: fetchData_def Let_def split: sum.splits)

lemma fetchData_fst_unparsable:
  "net P (requests w) (u, fp) = Responded st None \<Longrightarrow> fst (fetchData P u fp w) = Inl SyntaxError"
  by (simp add: fetchData_def Let_def)

lemma fetchData_fst_Rejected:
  "net P (requests w) (u, fp) = Rejected e \<Longrightarrow> fst (fetchData P u fp w) = Inl e"
  by (simp add: fetchData_def Let_def)

lemma fetchData_requests:
  "requests (snd (fetchData P u fp w)) = requests w @ [(u, fp)]"
  by (simp add: fetchData_def Let_def split: sum.splits)

lemma fetchData_Inr_cases:
  assumes "fst (fetchData P u fp w) = Inr b"
  obtains st resp where "net P (requests w) (u, fp) = Responded st (Some resp)"
    and "res_ok st" and "set_prop resp ''status'' (JStr ''success'') = Inr b"
proof (cases "net P (requests w) (u, fp)")
  case (Rejected e)
  with assms show ?thesis
    by (simp add: fetchData_fst_Rejected)
next
  case (Responded st body)
  show ?thesis
  proof (cases body)
    case None
    with Responded assms show ?thesis
      by (simp add: fetchData_fst_unparsable)
  next
    case (Some resp)
    with Responded have n: "net P (requests w) (u, fp) = Responded st (Some resp)"
      by simp
    from assms have "res_ok st \<and> set_prop resp ''status'' (JStr ''success'') = Inr b"
      unfolding fetchData_fst_Responded [OF n]
      by (auto simp: new_Error_def split: if_splits sum.splits)
    with n that show ?thesis
      by blast
  qed
qed

text \<open>
  C9. A response with a 2xx status whose body parsed to a JSON object: \<open>fetchData\<close>
  assigns \<^verbatim>\<open>"success"\<close> to the body's \<^verbatim>\<open>status\<close> before it validates, so the body comes
  back as a success with that field overwritten, whatever it held, and the validation
  that follows cannot fail: the error "Invalid success response structure" is not the
  result.
\<close>

theorem fetchData_overwrites_status:
  assumes "net P (requests w) (u, fp) = Responded st (Some (JObj kvs))"
    and "res_ok st"
  shows "fst (fetchData P u fp w) = Inr (JObj (AList.update ''status'' (JStr ''success'') kvs)) \<and>
         get_prop (JObj (AList.update ''status'' (JStr ''success'') kvs)) ''status'' = JStr ''success'' \<and>
         isValidSuccessResp (JObj (AList.update ''status'' (JStr ''success'') kvs)) \<and>
         fst (fetchData P u fp w) \<noteq> Inl (Error ''Invalid success response structure'')"
proof -
  have valid: "isValidSuccessResp (JObj (AList.update ''status'' (JStr ''success'') kvs))"
    by (rule set_status_valid [of "JObj kvs"]) simp
  then have "fst (fetchData P u fp w) = Inr (JObj (AList.update ''status'' (JStr ''success'') kvs))"
    using assms(2) by (simp add: fetchData_fst_Responded [OF assms(1)])
  with valid show ?thesis
    by (simp add: get_prop_update)
qed

text \<open>The instance the claim names: a 2xx response carrying an error body is returned as
  a success.\<close>

theorem fetchData_overwrites_status_witness:
  "res_ok 200 \<and>
   fst (fetchData
          (example_platform
             (Responded 200 (Some (JObj [(''status'', JStr ''error''), (''error'', JStr ''bad coin'')]))))
          example_url GET_init world0)
     = Inr (JObj [(''status'', JStr ''success''), (''error'', JStr ''bad coin'')])"
proof -
  have ok: "res_ok 200"
    by (simp add: res_ok_def)
  have n: "net (example_platform
                  (Responded 200 (Some (JObj [(''status'', JStr ''error''), (''error'', JStr ''bad coin'')]))))
             (requests world0) (example_url, GET_init)
           = Responded 200 (Some (JObj [(''status'', JStr ''error''), (''error'', JStr ''bad coin'')]))"
    by (simp add: example_platform_def)
  show ?thesis
    using fetchData_overwrites_status [OF n ok] ok by simp
qed


lemma set_prop_status:
  "set_prop resp ''status'' (JStr ''success'') =
     (if is_object resp then set_prop resp ''status'' (JStr ''success'') else Inl TypeError)"
  by (cases resp) (simp_all add: is_object_def)

lemma set_prop_object:
  "is_object resp \<Longrightarrow> \<exists>b. set_prop resp k x = Inr b"
  by (cases resp) (simp_all add: is_object_def)

lemma fetchData_fst_ok:
  assumes "net P (requests w) (u, fp) = Responded st (Some resp)" and "res_ok st"
  shows "fst (fetchData P u fp w) = set_prop resp ''status'' (JStr ''success'')"
  unfolding fetchData_fst_Responded [OF assms(1)]
  using assms(2) by (auto split: sum.splits dest: set_status_valid)

text \<open>
  C1, as the claim states it, fails: a 2xx response whose body has no \<^verbatim>\<open>status\<close> field
  lacks the success marker, and \<open>fetchData\<close> returns it as a success, having written the
  marker itself.
\<close>

theorem fetchData_missing_marker_counterexample:
  "\<not> isValidSuccessResp (JObj [(''address_in'', JStr ''X'')]) \<and>
   res_ok 200 \<and>
   fst (fetchData (example_platform (Responded 200 (Some (JObj [(''address_in'', JStr ''X'')]))))
          example_url GET_init world0)
     = Inr (JObj [(''address_in'', JStr ''X''), (''status'', JStr ''success'')])"
proof -
  have n: "net (example_platform (Responded 200 (Some (JObj [(''address_in'', JStr ''X'')]))))
             (requests world0) (example_url, GET_init)
           = Responded 200 (Some (JObj [(''address_in'', JStr ''X'')]))"
    by (simp add: example_platform_def)
  have ok: "res_ok 200"
    by (simp add: res_ok_def)
  have "\<not> isValidSuccessResp (JObj [(''address_in'', JStr ''X'')])"
    by (simp add: isValidSuccessResp_def has_key_def)
  then show ?thesis
    using ok by (simp add: fetchData_fst_ok [OF n ok])
qed

text \<open>
  C1, amended. Whenever \<open>fetchData\<close> yields a success, the success marker is present in
  the wrapped body: its \<^verbatim>\<open>status\<close> field is \<^verbatim>\<open>"success"\<close>. For a 2xx response the outcome
  is that of assigning \<^verbatim>\<open>"success"\<close> to the \<^verbatim>\<open>status\<close> of the parsed body: a body that is
  an object or an array is returned as a success with the marker written into it,
  whether or not it had the marker before; a body that is not (\<^verbatim>\<open>null\<close>, a number, a
  string, a boolean) is rejected with the TypeError of the assignment. In no case is a
  2xx response turned into the error "Invalid success response structure".
\<close>

theorem fetchData_success_marker:
  "(fst (fetchData P u fp w) = Inr b \<longrightarrow>
      isValidSuccessResp b \<and> get_prop b ''status'' = JStr ''success'') \<and>
   (net P (requests w) (u, fp) = Responded st (Some resp) \<and> res_ok st \<longrightarrow>
      fst (fetchData P u fp w) = set_prop resp ''status'' (JStr ''success'') \<and>
      (is_object resp \<longrightarrow> (\<exists>b'. fst (fetchData P u fp w) = Inr b')) \<and>
      (\<not> is_object resp \<longrightarrow> fst (fetchData P u fp w) = Inl TypeError) \<and>
      fst (fetchData P u fp w) \<noteq> Inl (Error ''Invalid success response structure''))"
proof (intro conjI impI)
  assume r: "fst (fetchData P u fp w) = Inr b"
  then obtain resp' where "set_prop resp' ''status'' (JStr ''success'') = Inr b"
    by (rule fetchData_Inr_cases)
  then have "isValidSuccessResp b"
    by (rule set_status_valid)
  then show "isValidSuccessResp b" and "get_prop b ''status'' = JStr ''success''"
    by (simp_all add: isValidSuccessResp_def)
next
  assume a: "net P (requests w) (u, fp) = Responded st (Some resp) \<and> res_ok st"
  then have eq: "fst (fetchData P u fp w) = set_prop resp ''status'' (JStr ''success'')"
    by (simp add: fetchData_fst_ok)
  then show "fst (fetchData P u fp w) = set_prop resp ''status'' (JStr ''success'')" .
  show "\<exists>b'. fst (fetchData P u fp w) = Inr b'" if "is_object resp"
    unfolding eq using that by (rule set_prop_object)
  show "fst (fetchData P u fp w) = Inl TypeError" if "\<not> is_object resp"
    unfolding eq using that set_prop_status [of resp] by simp
  show "fst (fetchData P u fp w) \<noteq> Inl (Error ''Invalid success response structure'')"
    unfolding eq by (auto dest: set_prop_Inl)
qed

text \<open>A 2xx answer with no \<^verbatim>\<open>status\<close> field comes back with the marker; a 2xx answer
  that is the number 5 is rejected with a TypeError.\<close>

theorem fetchData_success_marker_witness:
  "fst (fetchData (example_platform (Responded 200 (Some (JObj [(''ticker'', JStr ''btc'')]))))
          example_url GET_init world0)
     = Inr (JObj [(''ticker'', JStr ''btc''), (''status'', JStr ''success'')]) \<and>
   isValidSuccessResp (JObj [(''ticker'', JStr ''btc''), (''status'', JStr ''success'')]) \<and>
   res_ok 200 \<and> \<not> is_object (JNum ''5'') \<and>
   fst (fetchData (example_platform (Responded 200 (Some (JNum ''5'')))) example_url GET_init world0)
     = Inl TypeError"
proof -
  let ?P = "example_platform (Responded 200 (Some (JObj [(''ticker'', JStr ''btc'')])))"
  let ?Q = "example_platform (Responded 200 (Some (JNum ''5'')))"
  let ?b = "JObj [(''ticker'', JStr ''btc''), (''status'', JStr ''success'')]"
  have n: "net ?P (requests world0) (example_url, GET_init)
           = Responded 200 (Some (JObj [(''ticker'', JStr ''btc'')]))"
    and m: "net ?Q (requests world0) (example_url, GET_init) = Responded 200 (Some (JNum ''5''))"
    by (simp_all add: example_platform_def)
  have ok: "res_ok 200"
    by (simp add: res_ok_def)
  have no: "\<not> is_object (JNum ''5'')"
    by (simp add: is_object_def)
  from fetchData_success_marker
         [of ?P example_url GET_init world0 ?b 200 "JObj [(''ticker'', JStr ''btc'')]"] n ok
  have r: "fst (fetchData ?P example_url GET_init world0) = Inr ?b"
    by simp
  with fetchData_success_marker
         [of ?P example_url GET_init world0 ?b 200 "JObj [(''ticker'', JStr ''btc'')]"]
  have v: "isValidSuccessResp ?b"
    by simp
  from fetchData_success_marker [of ?Q example_url GET_init world0 ?b 200 "JNum ''5''"] m ok no
  have t: "fst (fetchData ?Q example_url GET_init world0) = Inl TypeError"
    by simp
  from r v ok no t show ?thesis
    by simp
qed

text \<open>
  C6, as the claim states it, fails: a response with status 500 whose body is not JSON
  has no \<^verbatim>\<open>error\<close> field, and the result is the parser's SyntaxError, not the generic
  message with the status code. \<open>fetchData\<close> parses the body before it looks at the
  status.
\<close>

theorem fetchData_unparsable_error_body_counterexample:
  "\<not> res_ok 500 \<and>
   fst (fetchData (example_platform (Responded 500 None)) example_url GET_init world0) = Inl SyntaxError \<and>
   fst (fetchData (example_platform (Responded 500 None)) example_url GET_init world0)
     \<noteq> Inl (Error (''HTTP error! Status: '' @ string_of_nat 500))"
proof -
  have n: "net (example_platform (Responded 500 None)) (requests world0) (example_url, GET_init)
           = Responded 500 None"
    by (simp add: example_platform_def)
  show ?thesis
    by (simp add: fetchData_fst_unparsable [OF n] res_ok_def)
qed

text \<open>
  C6, amended. For a response whose status is not 2xx: when the body does not parse as
  JSON, the result is the parse error; when it parses to an object, an array or a falsy
  value (\<^verbatim>\<open>null\<close>, \<^verbatim>\<open>false\<close>, \<^verbatim>\<open>0\<close>, the empty string), the result is the Error
  "HTTP error! Status: " followed by the status code when the body has no \<^verbatim>\<open>error\<close>
  field, and when it has one, what \<^verbatim>\<open>new Error\<close> of that field comes to: an Error whose
  message is the string form of the field (the field itself when it is a string) when
  the field has a string form, and the exception of the conversion when it has none (a
  TypeError for an object with a \<^verbatim>\<open>toString\<close> property of its own, or an array holding
  one).
\<close>

theorem fetchData_http_error:
  assumes "net P (requests w) (u, fp) = Responded st body"
    and "\<not> res_ok st"
  shows "(body = None \<longrightarrow> fst (fetchData P u fp w) = Inl SyntaxError) \<and>
         (body = Some resp \<and> (typeof resp = ''object'' \<or> \<not> truthy resp) \<longrightarrow>
            fst (fetchData P u fp w) =
              Inl (if has_key ''error'' resp then new_Error (join_room P) (get_prop resp ''error'')
                   else Error (''HTTP error! Status: '' @ string_of_nat st))) \<and>
         (body = Some resp \<and> typeof resp = ''object'' \<and> has_key ''error'' resp \<and>
          get_prop resp ''error'' \<noteq> JUndefined \<and>
          ToString (join_room P) (get_prop resp ''error'') = Inr str \<longrightarrow>
            fst (fetchData P u fp w) = Inl (Error str)) \<and>
         (body = Some resp \<and> typeof resp = ''object'' \<and> has_key ''error'' resp \<and>
          ToString (join_room P) (get_prop resp ''error'') = Inl e \<longrightarrow>
            fst (fetchData P u fp w) = Inl e) \<and>
         (body = Some resp \<and> typeof resp = ''object'' \<and> has_key ''error'' resp \<and>
          get_prop resp ''error'' = JStr msg \<longrightarrow>
            fst (fetchData P u fp w) = Inl (Error msg))"
proof -
  have general: "fst (fetchData P u fp w) =
          Inl (if has_key ''error'' resp then new_Error (join_room P) (get_prop resp ''error'')
               else Error (''HTTP error! Status: '' @ string_of_nat st))"
    if a: "body = Some resp \<and> (typeof resp = ''object'' \<or> \<not> truthy resp)"
  proof -
    from a assms(1) have n: "net P (requests w) (u, fp) = Responded st (Some resp)"
      by simp
    have falsy: "\<not> has_key ''error'' resp" if "\<not> truthy resp"
      using that by (cases resp) (simp_all add: has_key_def indexed_def)
    from a assms(2) falsy show ?thesis
      unfolding fetchData_fst_Responded [OF n] by (auto simp: new_Error_def)
  qed
  have "fst (fetchData P u fp w) = Inl SyntaxError" if "body = None"
    using that assms(1) by (simp add: fetchData_fst_unparsable)
  moreover have "fst (fetchData P u fp w) = Inl (Error str)"
    if "body = Some resp \<and> typeof resp = ''object'' \<and> has_key ''error'' resp \<and>
        get_prop resp ''error'' \<noteq> JUndefined \<and>
        ToString (join_room P) (get_prop resp ''error'') = Inr str"
    using that general by (simp add: new_Error_def)
  moreover have "fst (fetchData P u fp w) = Inl e"
    if "body = Some resp \<and> typeof resp = ''object'' \<and> has_key ''error'' resp \<and>
        ToString (join_room P) (get_prop resp ''error'') = Inl e"
    using that general by (auto simp: new_Error_def)
  moreover have "fst (fetchData P u fp w) = Inl (Error msg)"
    if "body = Some resp \<and> typeof resp = ''object'' \<and> has_key ''error'' resp \<and>
        get_prop resp ''error'' = JStr msg"
    using that general by (simp add: new_Error_def)
  ultimately show ?thesis
    using general by blast
qed

text \<open>The spec's example: status 400 with the body
  \<^verbatim>\<open>{"status":"error","error":"bad coin"}\<close> yields the Error "bad coin". And an \<^verbatim>\<open>error\<close>
  field that is an object with a \<^verbatim>\<open>toString\<close> property yields a TypeError.\<close>

theorem fetchData_http_error_witness:
  "\<not> res_ok 400 \<and>
   fst (fetchData
          (example_platform
             (Responded 400 (Some (JObj [(''status'', JStr ''error''), (''error'', JStr ''bad coin'')]))))
          example_url GET_init world0)
     = Inl (Error ''bad coin'') \<and>
   fst (fetchData
          (example_platform
             (Responded 400 (Some (JObj [(''error'', JObj [(''toString'', JStr ''x'')])]))))
          example_url GET_init world0)
     = Inl TypeError"
proof -
  let ?body = "JObj [(''status'', JStr ''error''), (''error'', JStr ''bad coin'')]"
  let ?odd = "JObj [(''error'', JObj [(''toString'', JStr ''x'')])]"
  have n: "net (example_platform (Responded 400 (Some ?body))) (requests world0) (example_url, GET_init)
           = Responded 400 (Some ?body)"
    and m: "net (example_platform (Responded 400 (Some ?odd))) (requests world0) (example_url, GET_init)
           = Responded 400 (Some ?odd)"
    by (simp_all add: example_platform_def)
  have bad: "\<not> res_ok 400"
    by (simp add: res_ok_def)
  have props: "typeof ?body = ''object'' \<and> has_key ''error'' ?body \<and>
               get_prop ?body ''error'' = JStr ''bad coin''"
    by (simp add: has_key_def get_prop_def)
  have odd: "typeof ?odd = ''object'' \<and> has_key ''error'' ?odd \<and>
             ToString (join_room (example_platform (Responded 400 (Some ?odd)))) (get_prop ?odd ''error'')
               = Inl TypeError"
    by (simp add: has_key_def get_prop_def)
  from fetchData_http_error [OF n bad, of ?body "''x''" TypeError "''bad coin''"] props
  have a: "fst (fetchData (example_platform (Responded 400 (Some ?body))) example_url GET_init world0)
             = Inl (Error ''bad coin'')"
    by blast
  from fetchData_http_error [OF m bad, of ?odd "''x''" TypeError "''x''"] odd
  have b: "fst (fetchData (example_platform (Responded 400 (Some ?odd))) example_url GET_init world0)
             = Inl TypeError"
    by blast
  from bad a b show ?thesis
    by simp
qed


section \<open>Properties of the coin info flattener\<close>

lemma foldr_max_le: "(foldr max xs 0 \<le> (n::nat)) = (\<forall>x \<in> set xs. x \<le> n)"
  by (induction xs) auto

lemma nesting_le_Suc:
  "(nesting info \<le> Suc room) =
     (\<forall>(key, val) \<in> set (own_entries info).
        is_object val \<and> \<not> has_key ''ticker'' val \<longrightarrow> nesting val \<le> room)"
  by (subst nesting.simps) (auto simp: foldr_max_le split: if_splits)

lemma nesting_pos: "0 < nesting info"
  by (subst nesting.simps) simp

lemma object_guards:
  "(truthy val \<and> typeof val = ''object'' \<and> has_key ''ticker'' val)
     = (is_object val \<and> has_key ''ticker'' val)"
  "(truthy val \<and> typeof val = ''object'') = is_object val"
  by (cases val; simp add: is_object_def)+

lemma is_object_entries: "is_object v \<Longrightarrow> Object_entries v = Inr (own_entries v)"
  by (auto simp: is_object_def Object_entries_def)

text \<open>What the flattener throws: nothing when the stack has room for the nesting of the
  input, a RangeError when it has not.\<close>

lemma processServiceInfo_thrown:
  "is_object info \<Longrightarrow>
   fst (processServiceInfo room info coins prefix)
     = (if nesting info \<le> room then None else Some RangeError)"
proof (induction room arbitrary: info coins prefix)
  case 0
  then show ?case
    using nesting_pos [of info] by simp
next
  case (Suc room)
  let ?step = "\<lambda>(thrown, coins) (key, val).
                   if thrown \<noteq> None then (thrown, coins)
                   else if truthy val \<and> typeof val = ''object'' \<and> has_key ''ticker'' val
                   then (None, assign coins (prefix @ key) (get_prop val ''ticker''))
                   else if truthy val \<and> typeof val = ''object''
                   then processServiceInfo room val coins (prefix @ key @ ''_'')
                   else (None, coins)"
  let ?fits = "\<lambda>es. \<forall>(key, val) \<in> set es.
                        is_object val \<and> \<not> has_key ''ticker'' val \<longrightarrow> nesting val \<le> room"
  have loop: "fst (foldl ?step (t, c) es)
                = (if t \<noteq> None then t else if ?fits es then None else Some RangeError)"
    for t c es
  proof (induction es arbitrary: t c)
    case Nil
    then show ?case by simp
  next
    case (Cons kv es)
    obtain key val where kv: "kv = (key, val)"
      by (cases kv)
    consider (thrown) "t \<noteq> None"
      | (coin) "t = None" "is_object val" "has_key ''ticker'' val"
      | (group) "t = None" "is_object val" "\<not> has_key ''ticker'' val"
      | (scalar) "t = None" "\<not> is_object val"
      by blast
    then show ?case
    proof cases
      case thrown
      then show ?thesis
        using Cons.IH [of t c] by (simp add: kv)
    next
      case coin
      then show ?thesis
        using Cons.IH [of None "assign c (prefix @ key) (get_prop val ''ticker'')"]
        by (simp add: kv object_guards)
    next
      case group
      obtain t' c' where call: "processServiceInfo room val c (prefix @ key @ ''_'') = (t', c')"
        by (cases "processServiceInfo room val c (prefix @ key @ ''_'')")
      with Suc.IH [OF group(2), of c "prefix @ key @ ''_''"]
      have t': "t' = (if nesting val \<le> room then None else Some RangeError)"
        by simp
      from group call show ?thesis
        using Cons.IH [of t' c'] by (auto simp: kv object_guards t')
    next
      case scalar
      then show ?thesis
        using Cons.IH [of None c] by (simp add: kv object_guards)
    qed
  qed
  have call: "processServiceInfo (Suc room) info coins prefix
                = foldl ?step (None, coins) (own_entries info)"
    by (simp only: processServiceInfo.simps is_object_entries [OF Suc.prems] sum.case)
  show ?case
    unfolding call loop nesting_le_Suc by simp
qed

text \<open>What the flattener leaves in the accumulator when it throws nothing: the records
  of the specification, assigned one after the other.\<close>

lemma processServiceInfo_records:
  "is_object info \<Longrightarrow> nesting info \<le> room \<Longrightarrow>
   processServiceInfo room info coins prefix
     = (None, foldl record_coin coins (coin_records prefix info))"
proof (induction room arbitrary: info coins prefix)
  case 0
  then show ?case
    using nesting_pos [of info] by simp
next
  case (Suc room)
  let ?step = "\<lambda>(thrown, coins) (key, val).
                   if thrown \<noteq> None then (thrown, coins)
                   else if truthy val \<and> typeof val = ''object'' \<and> has_key ''ticker'' val
                   then (None, assign coins (prefix @ key) (get_prop val ''ticker''))
                   else if truthy val \<and> typeof val = ''object''
                   then processServiceInfo room val coins (prefix @ key @ ''_'')
                   else (None, coins)"
  let ?leaf = "\<lambda>(key, val).
                    if is_object val \<and> has_key ''ticker'' val
                    then [(prefix @ key, get_prop val ''ticker'')]
                    else if is_object val
                    then coin_records (prefix @ key @ ''_'') val
                    else []"
  have fits: "nesting val \<le> room"
    if "(key, val) \<in> set (own_entries info)" "is_object val" "\<not> has_key ''ticker'' val"
    for key val
    using Suc.prems(2) that unfolding nesting_le_Suc by auto
  have loop: "foldl ?step (None, c) es = (None, foldl record_coin c (concat (map ?leaf es)))"
    if "set es \<subseteq> set (own_entries info)" for es c
    using that
  proof (induction es arbitrary: c)
    case Nil
    then show ?case by simp
  next
    case (Cons kv es)
    obtain key val where kv: "kv = (key, val)"
      by (cases kv)
    have mem: "(key, val) \<in> set (own_entries info)"
      using Cons.prems kv by simp
    have rest: "set es \<subseteq> set (own_entries info)"
      using Cons.prems by simp
    consider (coin) "is_object val" "has_key ''ticker'' val"
      | (group) "is_object val" "\<not> has_key ''ticker'' val"
      | (scalar) "\<not> is_object val"
      by blast
    then show ?case
    proof cases
      case coin
      have "assign c (prefix @ key) (get_prop val ''ticker'')
              = record_coin c (prefix @ key, get_prop val ''ticker'')"
        by (simp add: record_coin_def)
      with coin show ?thesis
        using Cons.IH [OF rest] by (simp add: kv object_guards)
    next
      case group
      have "processServiceInfo room val c (prefix @ key @ ''_'')
              = (None, foldl record_coin c (coin_records (prefix @ key @ ''_'') val))"
        using group fits [OF mem] by (intro Suc.IH)
      with group show ?thesis
        using Cons.IH [OF rest] by (simp add: kv object_guards)
    next
      case scalar
      then show ?thesis
        using Cons.IH [OF rest] by (simp add: kv object_guards)
    qed
  qed
  have call: "processServiceInfo (Suc room) info coins prefix
                = foldl ?step (None, coins) (own_entries info)"
    by (simp only: processServiceInfo.simps is_object_entries [OF Suc.prems(1)] sum.case)
  have "coin_records prefix info = concat (map ?leaf (own_entries info))"
    by (subst coin_records.simps) (rule refl)
  then show ?case
    unfolding call by (simp only: loop [OF subset_refl])
qed

lemma coin_records_JObj:
  "coin_records prefix (JObj kvs) =
     concat (map (\<lambda>(key, val).
                    if is_object val \<and> has_key ''ticker'' val
                    then [(prefix @ key, get_prop val ''ticker'')]
                    else if is_object val
                    then coin_records (prefix @ key @ ''_'') val
                    else [])
                 kvs)"
  by (subst coin_records.simps) simp

lemma nesting_JObj:
  "nesting (JObj kvs) =
     Suc (foldr max (map (\<lambda>(key, val).
                            if is_object val \<and> \<not> has_key ''ticker'' val then nesting val else 0)
                         kvs) 0)"
  by (subst nesting.simps) simp

text \<open>Assignments under names other than \<^verbatim>\<open>__proto__\<close> are updates of the own properties.\<close>

lemma foldl_record_coin_plain:
  "''__proto__'' \<notin> fst ` set rs \<Longrightarrow>
   foldl record_coin c rs
     = c\<lparr>own := foldl (\<lambda>m r. m(fst r \<mapsto> snd r)) (own c) rs\<rparr>"
  by (induction rs arbitrary: c) (auto simp: record_coin_def assign_def)

lemma dom_foldl_update:
  "dom (foldl (\<lambda>m r. m(fst r \<mapsto> snd r)) m rs) = dom m \<union> fst ` set rs"
  by (induction rs arbitrary: m) auto

lemma card_dom_foldl_update:
  assumes "finite (dom m)" and "distinct (map fst rs)" and "fst ` set rs \<inter> dom m = {}"
  shows "card (dom (foldl (\<lambda>m r. m(fst r \<mapsto> snd r)) m rs)) = card (dom m) + length rs"
proof -
  have "card (fst ` set rs) = length rs"
    using assms(2) distinct_card [of "map fst rs"] by simp
  moreover have "card (dom m \<union> fst ` set rs) = card (dom m) + card (fst ` set rs)"
    using assms(1,3) by (intro card_Un_disjoint) auto
  ultimately show ?thesis
    by (simp add: dom_foldl_update)
qed

lemma coin_records_colliding:
  "coin_records [] colliding_info = [(''a_b'', JStr ''X''), (''a_b'', JStr ''Y'')]"
  by (simp add: colliding_info_def coin_records_JObj is_object_def has_key_def get_prop_def)

lemma nesting_colliding: "nesting colliding_info = 2"
  by (simp add: colliding_info_def nesting_JObj is_object_def has_key_def)

lemma coin_records_example:
  "coin_records [] example_info =
     [(''btc'', JStr ''btc''), (''polygon_usdt'', JStr ''usdt''), (''polygon_matic'', JStr ''matic'')]"
  by (simp add: example_info_def coin_records_JObj is_object_def has_key_def get_prop_def)

lemma nesting_example: "nesting example_info = 2"
  by (simp add: example_info_def nesting_JObj is_object_def has_key_def)

text \<open>
  C2, as the claim states it, fails in its last sentence: in \<open>colliding_info\<close> two leaf
  objects contain a \<^verbatim>\<open>ticker\<close> field, both get the path \<^verbatim>\<open>a_b\<close>, and the mapping
  produced has one entry for the two of them (the later write wins).
\<close>

theorem processServiceInfo_collision_counterexample:
  "coin_records [] colliding_info = [(''a_b'', JStr ''X''), (''a_b'', JStr ''Y'')] \<and>
   processServiceInfo 1000 colliding_info empty_object []
     = (None, \<lparr>own = Map.empty(''a_b'' \<mapsto> JStr ''Y''), proto = ObjectPrototype\<rparr>) \<and>
   card (dom (Map.empty(''a_b'' \<mapsto> JStr ''Y''))) = 1"
proof -
  have "processServiceInfo 1000 colliding_info empty_object []
          = (None, foldl record_coin empty_object (coin_records [] colliding_info))"
    by (rule processServiceInfo_records)
       (simp_all add: nesting_colliding, simp add: colliding_info_def is_object_def)
  then show ?thesis
    by (simp add: coin_records_colliding record_coin_def assign_def empty_object_def)
qed

text \<open>
  C2, amended. For every input object and prefix, on a call stack with room for the
  nesting of the input, \<open>processServiceInfo\<close> processes the key/value pairs of the input
  in key order, depth-first: for an object containing a \<^verbatim>\<open>ticker\<close> field it assigns the
  ticker to the property \<open>prefix + key\<close> of the accumulator, a non-null object lacking
  one is descended into with the prefix \<open>prefix + key + "_"\<close>, and a scalar or \<^verbatim>\<open>null\<close>
  adds nothing. So the accumulator ends as it is after exactly one assignment per leaf
  object containing a \<^verbatim>\<open>ticker\<close> field, in that order. When none of the leaves' paths is
  \<^verbatim>\<open>__proto__\<close> (an assignment under that name can reach the prototype's setter and store
  nothing), each assignment stores an entry: the keys are the accumulator's and the
  leaves' paths, with exactly one new entry per leaf when the paths are pairwise distinct
  and not in the accumulator already. On an input nested deeper than the call stack has
  room for, the call ends in a RangeError.
\<close>

theorem processServiceInfo_flattens:
  assumes "is_object info"
  shows "(nesting info \<le> room \<longrightarrow>
            processServiceInfo room info coins prefix
              = (None, foldl record_coin coins (coin_records prefix info))) \<and>
         (room < nesting info \<longrightarrow>
            fst (processServiceInfo room info coins prefix) = Some RangeError) \<and>
         (''__proto__'' \<notin> fst ` set (coin_records prefix info) \<longrightarrow>
            foldl record_coin coins (coin_records prefix info)
              = coins\<lparr>own := foldl (\<lambda>m r. m(fst r \<mapsto> snd r)) (own coins)
                                 (coin_records prefix info)\<rparr> \<and>
            dom (own (foldl record_coin coins (coin_records prefix info)))
              = dom (own coins) \<union> fst ` set (coin_records prefix info)) \<and>
         (''__proto__'' \<notin> fst ` set (coin_records prefix info) \<and>
          finite (dom (own coins)) \<and> distinct (map fst (coin_records prefix info)) \<and>
          fst ` set (coin_records prefix info) \<inter> dom (own coins) = {} \<longrightarrow>
            card (dom (own (foldl record_coin coins (coin_records prefix info))))
              = card (dom (own coins)) + length (coin_records prefix info))"
proof -
  have "processServiceInfo room info coins prefix
          = (None, foldl record_coin coins (coin_records prefix info))"
    if "nesting info \<le> room"
    using assms that by (rule processServiceInfo_records)
  moreover have "fst (processServiceInfo room info coins prefix) = Some RangeError"
    if "room < nesting info"
    using that by (simp add: processServiceInfo_thrown [OF assms])
  moreover have "foldl record_coin coins (coin_records prefix info)
              = coins\<lparr>own := foldl (\<lambda>m r. m(fst r \<mapsto> snd r)) (own coins)
                                 (coin_records prefix info)\<rparr> \<and>
            dom (own (foldl record_coin coins (coin_records prefix info)))
              = dom (own coins) \<union> fst ` set (coin_records prefix info)"
    if "''__proto__'' \<notin> fst ` set (coin_records prefix info)"
    using that by (simp add: foldl_record_coin_plain dom_foldl_update)
  moreover have "card (dom (own (foldl record_coin coins (coin_records prefix info))))
              = card (dom (own coins)) + length (coin_records prefix info)"
    if "''__proto__'' \<notin> fst ` set (coin_records prefix info) \<and>
          finite (dom (own coins)) \<and> distinct (map fst (coin_records prefix info)) \<and>
          fst ` set (coin_records prefix info) \<inter> dom (own coins) = {}"
    using that by (simp add: foldl_record_coin_plain card_dom_foldl_update)
  ultimately show ?thesis
    by blast
qed

text \<open>On \<open>example_info\<close>, with room: three coin records, three entries, none for the scalar
  or the \<^verbatim>\<open>null\<close>. With room for one call only, a RangeError.\<close>

theorem processServiceInfo_flattens_witness:
  "is_object example_info \<and> nesting example_info \<le> 1000 \<and>
   processServiceInfo 1000 example_info empty_object []
     = (None, \<lparr>own = Map.empty(''btc'' \<mapsto> JStr ''btc'', ''polygon_usdt'' \<mapsto> JStr ''usdt'',
                               ''polygon_matic'' \<mapsto> JStr ''matic''),
               proto = ObjectPrototype\<rparr>) \<and>
   card (dom (Map.empty(''btc'' \<mapsto> JStr ''btc'', ''polygon_usdt'' \<mapsto> JStr ''usdt'',
                        ''polygon_matic'' \<mapsto> JStr ''matic''))) = 3 \<and>
   1 < nesting example_info \<and>
   fst (processServiceInfo 1 example_info empty_object []) = Some RangeError"
proof -
  have obj: "is_object example_info"
    by (simp add: example_info_def is_object_def)
  have a: "processServiceInfo 1000 example_info empty_object []
     = (None, \<lparr>own = Map.empty(''btc'' \<mapsto> JStr ''btc'', ''polygon_usdt'' \<mapsto> JStr ''usdt'',
                               ''polygon_matic'' \<mapsto> JStr ''matic''),
               proto = ObjectPrototype\<rparr>)"
    using processServiceInfo_flattens [OF obj, of 1000 empty_object "[]"]
    by (simp add: nesting_example coin_records_example empty_object_def)
  have b: "fst (processServiceInfo 1 example_info empty_object []) = Some RangeError"
    using processServiceInfo_flattens [OF obj, of 1 empty_object "[]"]
    by (simp add: nesting_example)
  from obj a b show ?thesis
    by (simp add: nesting_example)
qed

text \<open>An info whose one coin stands under the key \<^verbatim>\<open>__proto__\<close>: the assignment into the
  empty object reaches the setter, which drops the string, and no entry is stored.\<close>

lemma processServiceInfo_proto_key:
  "processServiceInfo 1000 (JObj [(''__proto__'', JObj [(''ticker'', JStr ''X'')])]) empty_object []
     = (None, empty_object)"
proof -
  let ?info = "JObj [(''__proto__'', JObj [(''ticker'', JStr ''X'')])]"
  have "processServiceInfo 1000 ?info empty_object []
          = (None, foldl record_coin empty_object (coin_records [] ?info))"
    by (rule processServiceInfo_records)
       (simp_all add: is_object_def nesting_JObj has_key_def)
  then show ?thesis
    by (simp add: coin_records_JObj is_object_def has_key_def get_prop_def record_coin_def
          assign_def setter_reached_def empty_object_def)
qed


section \<open>Properties of the request builder\<close>

lemma split_path_plain: "\<forall>c \<in> set s. \<not> path_separator c \<Longrightarrow> split_path s = [s]"
  by (induction s) auto

lemma split_path_append_separator:
  "\<forall>c \<in> set s. \<not> path_separator c \<Longrightarrow> split_path (s @ CHR ''/'' # rest) = s # split_path rest"
  by (induction s) (auto simp: path_separator_def)

lemma split_path_segments:
  "\<forall>t \<in> set (s # ss). \<forall>c \<in> set t. \<not> path_separator c \<Longrightarrow>
   split_path (s @ concat (map (\<lambda>t. ''/'' @ t) ss)) = s # ss"
proof (induction ss arbitrary: s)
  case Nil
  then show ?case
    by (simp add: split_path_plain)
next
  case (Cons t ss)
  then have "split_path (t @ concat (map (\<lambda>t. ''/'' @ t) ss)) = t # ss"
    by simp
  with Cons.prems show ?case
    by (simp add: split_path_append_separator)
qed

lemma path_state_plain:
  "\<forall>b \<in> set bs. \<not> single_dot b \<and> \<not> double_dot b \<Longrightarrow> path_state bs path = path @ bs"
  by (induction bs arbitrary: path) auto

lemma percent_encode_plain: "list_all plain_char s \<Longrightarrow> concat (map percent_encode s) = s"
  by (induction s) (auto simp: plain_char_def percent_encode_def)

lemma plain_char_kept: "plain_char c \<Longrightarrow> \<not> tab_or_newline c"
  by (auto simp: plain_char_def tab_or_newline_def path_percent_encoded_def)

lemma filter_plain: "list_all plain_char s \<Longrightarrow> filter (\<lambda>c. \<not> tab_or_newline c) s = s"
  by (induction s) (auto dest: plain_char_kept)

lemma filter_plain_path:
  "\<forall>s \<in> set segs. list_all plain_char s \<Longrightarrow>
   filter (\<lambda>c. \<not> tab_or_newline c) (concat (map (\<lambda>s. ''/'' @ s) segs))
     = concat (map (\<lambda>s. ''/'' @ s) segs)"
proof (induction segs)
  case Nil
  then show ?case
    by simp
next
  case (Cons s segs)
  have "\<not> tab_or_newline CHR ''/''"
    by (simp add: tab_or_newline_def)
  with Cons show ?case
    by (simp add: filter_plain)
qed

lemma URL_set_pathname_slash:
  "filter (\<lambda>c. \<not> tab_or_newline c) v = CHR ''/'' # rest \<Longrightarrow>
   URL_set_pathname v
     = concat (map (\<lambda>s. ''/'' @ s)
         (path_state (map (\<lambda>s. concat (map percent_encode s)) (split_path rest)) []))"
  by (simp add: URL_set_pathname_def path_separator_def)

text \<open>The URL parser stores a path of plain segments as it is.\<close>

lemma URL_set_pathname_plain:
  assumes "\<forall>s \<in> set segs. plain_segment s" and "segs \<noteq> []"
  shows "URL_set_pathname (concat (map (\<lambda>s. ''/'' @ s) segs)) = concat (map (\<lambda>s. ''/'' @ s) segs)"
proof -
  from assms(2) obtain s ss where segs: "segs = s # ss"
    by (cases segs) auto
  have plain: "\<forall>t \<in> set (s # ss). list_all plain_char t"
    and dots: "\<forall>t \<in> set (s # ss). \<not> single_dot t \<and> \<not> double_dot t"
    using assms(1) by (auto simp: segs plain_segment_def)
  from plain have "\<forall>t \<in> set (s # ss). \<forall>c \<in> set t. \<not> path_separator c"
    by (auto simp: list_all_iff plain_char_def)
  then have split: "split_path (s @ concat (map (\<lambda>t. ''/'' @ t) ss)) = s # ss"
    by (rule split_path_segments)
  have encode: "map (\<lambda>t. concat (map percent_encode t)) (s # ss) = s # ss"
    using plain by (intro map_idI) (auto simp: percent_encode_plain)
  have "filter (\<lambda>c. \<not> tab_or_newline c) (concat (map (\<lambda>s. ''/'' @ s) (s # ss)))
          = concat (map (\<lambda>s. ''/'' @ s) (s # ss))"
    using plain by (rule filter_plain_path)
  then have kept: "filter (\<lambda>c. \<not> tab_or_newline c) (concat (map (\<lambda>s. ''/'' @ s) (s # ss)))
                     = CHR ''/'' # (s @ concat (map (\<lambda>t. ''/'' @ t) ss))"
    by simp
  have state: "path_state (s # ss) [] = s # ss"
    using dots path_state_plain [of "s # ss" "[]"] by simp
  have "URL_set_pathname (concat (map (\<lambda>s. ''/'' @ s) (s # ss)))
          = concat (map (\<lambda>s. ''/'' @ s) (s # ss))"
    unfolding URL_set_pathname_slash [OF kept] split encode state ..
  then show ?thesis
    by (simp only: segs)
qed

lemma foldl_thrown:
  "foldl (\<lambda>acc key. case acc of Inl e \<Rightarrow> Inl e | Inr u \<Rightarrow> f u key) (Inl e) ks = Inl e"
  by (induction ks) simp_all

lemma foldl_searchParams_append:
  "foldl (\<lambda>acc key. case acc of
                      Inl e \<Rightarrow> Inl e
                    | Inr u \<Rightarrow> searchParams_append room u key (f key))
         (Inr u0) ks
     = (case collect (map (\<lambda>key. case ToString room (f key) of
                                    Inl e \<Rightarrow> Inl e
                                  | Inr s \<Rightarrow> Inr (key, s)) ks) of
          Inl e \<Rightarrow> Inl e
        | Inr q \<Rightarrow> Inr (u0\<lparr>searchParams := searchParams u0 @ q\<rparr>))"
proof (induction ks arbitrary: u0)
  case Nil
  then show ?case by simp
next
  case (Cons k ks)
  show ?case
  proof (cases "ToString room (f k)")
    case (Inl e)
    then show ?thesis
      by (simp add: searchParams_append_def foldl_thrown)
  next
    case (Inr s)
    then show ?thesis
      using Cons.IH [of "append_pair u0 k s"]
      by (simp add: searchParams_append_def append_pair_def split: sum.splits)
  qed
qed

lemma makeRequest_cases:
  "makeRequest P endpoint coin_opt params w =
     (case (case params of Some ps \<Rightarrow> query_strings (join_room P) ps | None \<Rightarrow> Inr []) of
        Inl e \<Rightarrow> (Inl e, w)
      | Inr q \<Rightarrow> fetchData P (request_url endpoint coin_opt q) GET_init w)"
  by (cases params)
     (simp_all add: makeRequest_def request_url_def GET_init_def new_URL_baseURL_def Let_def
        foldl_searchParams_append query_strings_def split: sum.splits)

lemma makeRequest_thrown:
  "query_strings (join_room P) ps = Inl e \<Longrightarrow>
   makeRequest P endpoint coin_opt (Some ps) w = (Inl e, w)"
  by (simp add: makeRequest_cases)

lemma makeRequest_sent:
  "query_strings (join_room P) ps = Inr q \<Longrightarrow>
   makeRequest P endpoint coin_opt (Some ps) w
     = fetchData P (request_url endpoint coin_opt q) GET_init w"
  by (simp add: makeRequest_cases)

lemma makeRequest_requests:
  "requests (snd (makeRequest P endpoint coin_opt params w)) = requests w \<or>
   requests (snd (makeRequest P endpoint coin_opt params w))
     = requests w @ [(request_url endpoint coin_opt
                        (searchParams (sent_url (snd (makeRequest P endpoint coin_opt params w)))),
                      GET_init)]"
  by (auto simp: makeRequest_cases fetchData_requests sent_url_def request_url_def
           split: sum.splits option.splits)

lemma String_replace_absent: "c \<notin> set s \<Longrightarrow> String_replace s c r = s"
  by (induction s) auto

lemma String_replace_first: "c \<notin> set g \<Longrightarrow> String_replace (g @ c # s) c r = g @ r @ s"
  by (induction g) auto

lemma sent_target:
  assumes "requests (snd (makeRequest P endpoint coin_opt params w)) \<noteq> requests w"
  shows "target (sent_url (snd (makeRequest P endpoint coin_opt params w)))
           = baseURL @ pathname (request_url endpoint coin_opt [])"
proof -
  from assms makeRequest_requests [of P endpoint coin_opt params w]
  obtain q where "requests (snd (makeRequest P endpoint coin_opt params w))
                    = requests w @ [(request_url endpoint coin_opt q, GET_init)]"
    by auto
  then show ?thesis
    by (simp add: sent_url_def target_def request_url_def)
qed

text \<open>
  C4, as the claim states it, fails: the coin \<^verbatim>\<open>..\<close> has no separator, and the request is
  not sent to \<open>baseURL/../create/\<close> but to \<open>baseURL/create/\<close>. The assignment to
  \<^verbatim>\<open>url.pathname\<close> parses the path again, and the parser resolves the dot segment.
\<close>

theorem makeRequest_dot_segment_counterexample:
  "''..'' \<noteq> [] \<and> CHR ''_'' \<notin> set ''..'' \<and>
   requests (snd (makeRequest (example_platform (Responded 200 None)) ''create''
                    (Some ''..'') None world0)) \<noteq> requests world0 \<and>
   target (sent_url (snd (makeRequest (example_platform (Responded 200 None)) ''create''
                            (Some ''..'') None world0)))
     = ''https://api.cryptapi.io/create/''"
proof -
  have "URL_set_pathname ''/../create/'' = ''/create/''"
    by (simp add: URL_set_pathname_def Let_def tab_or_newline_def path_separator_def
          percent_encode_def path_percent_encoded_def double_dot_def single_dot_def)
  then show ?thesis
    by (simp add: makeRequest_cases fetchData_requests sent_url_def target_def request_url_def
          baseURL_def world0_def)
qed

text \<open>
  C4, amended. Every request \<open>makeRequest\<close> sends goes to the base URL followed by what
  the URL parser makes of the path \<open>/endpoint/\<close> when no coin is given, and of
  \<open>/coin/endpoint/\<close> with the coin's first separator replaced by a slash when one is
  given. When the endpoint and the coin (its group and its subtype) are segments that the
  parser stores as they are (no slash or backslash, no character that a path
  percent-encodes, which are the control characters, the space, the characters
  \<^verbatim>\<open>" # < > ? ^ ` { }\<close> and those beyond ASCII, and not a dot segment), the target is
  \<open>baseURL/endpoint/\<close> when no coin is given, \<open>baseURL/coinGroup/coinSubtype/endpoint/\<close>
  for the coin \<open>coinGroup_coinSubtype\<close>, and \<open>baseURL/coin/endpoint/\<close> for a coin without
  a separator.
\<close>

theorem makeRequest_target_path:
  "(requests (snd (makeRequest P endpoint coin_opt params w)) \<noteq> requests w \<longrightarrow>
      target (sent_url (snd (makeRequest P endpoint coin_opt params w)))
        = baseURL @ URL_set_pathname (''/'' @
            (case coin_opt of
               Some c \<Rightarrow>
                 if c \<noteq> [] then String_replace c CHR ''_'' ''/'' @ ''/'' @ endpoint @ ''/''
                 else endpoint @ ''/''
             | None \<Rightarrow> endpoint @ ''/''))) \<and>
   (requests (snd (makeRequest P endpoint None params w)) \<noteq> requests w \<and>
    plain_segment endpoint \<longrightarrow>
      target (sent_url (snd (makeRequest P endpoint None params w)))
        = baseURL @ ''/'' @ endpoint @ ''/'') \<and>
   (requests (snd (makeRequest P endpoint (Some (coinGroup @ ''_'' @ coinSubtype)) params w))
      \<noteq> requests w \<and>
    CHR ''_'' \<notin> set coinGroup \<and> plain_segment coinGroup \<and> plain_segment coinSubtype \<and>
    plain_segment endpoint \<longrightarrow>
      target (sent_url (snd (makeRequest P endpoint (Some (coinGroup @ ''_'' @ coinSubtype)) params w)))
        = baseURL @ ''/'' @ coinGroup @ ''/'' @ coinSubtype @ ''/'' @ endpoint @ ''/'') \<and>
   (requests (snd (makeRequest P endpoint (Some c) params w)) \<noteq> requests w \<and>
    c \<noteq> [] \<and> CHR ''_'' \<notin> set c \<and> plain_segment c \<and> plain_segment endpoint \<longrightarrow>
      target (sent_url (snd (makeRequest P endpoint (Some c) params w)))
        = baseURL @ ''/'' @ c @ ''/'' @ endpoint @ ''/'')"
proof (intro conjI impI)
  assume "requests (snd (makeRequest P endpoint coin_opt params w)) \<noteq> requests w"
  then show "target (sent_url (snd (makeRequest P endpoint coin_opt params w)))
        = baseURL @ URL_set_pathname (''/'' @
            (case coin_opt of
               Some c \<Rightarrow>
                 if c \<noteq> [] then String_replace c CHR ''_'' ''/'' @ ''/'' @ endpoint @ ''/''
                 else endpoint @ ''/''
             | None \<Rightarrow> endpoint @ ''/''))"
    by (simp add: sent_target request_url_def)
next
  assume a: "requests (snd (makeRequest P endpoint None params w)) \<noteq> requests w \<and>
             plain_segment endpoint"
  then have "URL_set_pathname (''/'' @ endpoint @ ''/'') = ''/'' @ endpoint @ ''/''"
    using URL_set_pathname_plain [of "[endpoint, []]"]
    by (simp add: plain_segment_def single_dot_def double_dot_def)
  with a show "target (sent_url (snd (makeRequest P endpoint None params w)))
                 = baseURL @ ''/'' @ endpoint @ ''/''"
    by (simp add: sent_target request_url_def)
next
  assume a: "requests (snd (makeRequest P endpoint (Some (coinGroup @ ''_'' @ coinSubtype)) params w))
               \<noteq> requests w \<and>
             CHR ''_'' \<notin> set coinGroup \<and> plain_segment coinGroup \<and> plain_segment coinSubtype \<and>
             plain_segment endpoint"
  then have replaced: "String_replace (coinGroup @ ''_'' @ coinSubtype) CHR ''_'' ''/''
                         = coinGroup @ ''/'' @ coinSubtype"
    using String_replace_first [of "CHR ''_''" coinGroup coinSubtype "''/''"] by simp
  from a have "URL_set_pathname (''/'' @ coinGroup @ ''/'' @ coinSubtype @ ''/'' @ endpoint @ ''/'')
                 = ''/'' @ coinGroup @ ''/'' @ coinSubtype @ ''/'' @ endpoint @ ''/''"
    using URL_set_pathname_plain [of "[coinGroup, coinSubtype, endpoint, []]"]
    by (simp add: plain_segment_def single_dot_def double_dot_def)
  with a replaced
  show "target (sent_url (snd (makeRequest P endpoint (Some (coinGroup @ ''_'' @ coinSubtype)) params w)))
          = baseURL @ ''/'' @ coinGroup @ ''/'' @ coinSubtype @ ''/'' @ endpoint @ ''/''"
    by (simp add: sent_target request_url_def)
next
  assume a: "requests (snd (makeRequest P endpoint (Some c) params w)) \<noteq> requests w \<and>
             c \<noteq> [] \<and> CHR ''_'' \<notin> set c \<and> plain_segment c \<and> plain_segment endpoint"
  then have "URL_set_pathname (''/'' @ c @ ''/'' @ endpoint @ ''/'') = ''/'' @ c @ ''/'' @ endpoint @ ''/''"
    using URL_set_pathname_plain [of "[c, endpoint, []]"]
    by (simp add: plain_segment_def single_dot_def double_dot_def)
  with a show "target (sent_url (snd (makeRequest P endpoint (Some c) params w)))
                 = baseURL @ ''/'' @ c @ ''/'' @ endpoint @ ''/''"
    by (simp add: sent_target request_url_def String_replace_absent)
qed

lemma plain_examples:
  "plain_segment ''polygon'' \<and> plain_segment ''usdt'' \<and> plain_segment ''btc'' \<and>
   plain_segment ''create'' \<and> plain_segment ''info''"
  by (simp add: plain_segment_def plain_char_def path_separator_def path_percent_encoded_def
        single_dot_def double_dot_def)

text \<open>The spec's examples, \<^verbatim>\<open>polygon_usdt\<close> and \<^verbatim>\<open>btc\<close> with the endpoint \<^verbatim>\<open>create\<close>, and
  the info endpoint, which takes no coin.\<close>

theorem makeRequest_target_path_witness:
  "target (sent_url (snd (makeRequest (example_platform (Responded 200 None)) ''info''
                            None None world0)))
     = ''https://api.cryptapi.io/info/'' \<and>
   CHR ''_'' \<notin> set ''polygon'' \<and>
   target (sent_url (snd (makeRequest (example_platform (Responded 200 None)) ''create''
                            (Some ''polygon_usdt'') None world0)))
     = ''https://api.cryptapi.io/polygon/usdt/create/'' \<and>
   ''btc'' \<noteq> [] \<and> CHR ''_'' \<notin> set ''btc'' \<and>
   target (sent_url (snd (makeRequest (example_platform (Responded 200 None)) ''create''
                            (Some ''btc'') None world0)))
     = ''https://api.cryptapi.io/btc/create/''"
proof -
  let ?P = "example_platform (Responded 200 None)"
  have sent: "requests (snd (makeRequest ?P e c None world0)) \<noteq> requests world0" for e c
    by (simp add: makeRequest_cases fetchData_requests)
  have plain: "plain_segment ''polygon''" "plain_segment ''usdt''" "plain_segment ''btc''"
    "plain_segment ''create''" "plain_segment ''info''"
    using plain_examples by simp_all
  have no_separator: "CHR ''_'' \<notin> set ''polygon''" "CHR ''_'' \<notin> set ''btc''" "''btc'' \<noteq> []"
    by simp_all
  have "target (sent_url (snd (makeRequest ?P ''info'' None None world0)))
          = baseURL @ ''/'' @ ''info'' @ ''/''"
    using makeRequest_target_path [of ?P "''info''" None None world0 "''polygon''" "''usdt''" "''btc''"]
      sent [of "''info''" None] plain(5)
    by blast
  moreover
  have "target (sent_url (snd (makeRequest ?P ''create'' (Some (''polygon'' @ ''_'' @ ''usdt''))
                                 None world0)))
          = baseURL @ ''/'' @ ''polygon'' @ ''/'' @ ''usdt'' @ ''/'' @ ''create'' @ ''/''"
    using makeRequest_target_path [of ?P "''create''" None None world0 "''polygon''" "''usdt''" "''btc''"]
      sent [of "''create''" "Some (''polygon'' @ ''_'' @ ''usdt'')"] plain(1,2,4) no_separator(1)
    by blast
  moreover
  have "target (sent_url (snd (makeRequest ?P ''create'' (Some ''btc'') None world0)))
          = baseURL @ ''/'' @ ''btc'' @ ''/'' @ ''create'' @ ''/''"
    using makeRequest_target_path [of ?P "''create''" None None world0 "''polygon''" "''usdt''" "''btc''"]
      sent [of "''create''" "Some ''btc''"] plain(3,4) no_separator(2,3)
    by blast
  ultimately show ?thesis
    by (simp add: baseURL_def)
qed


text \<open>
  C5. On an instance whose coin, callback URL or own address is empty, \<open>getAddress\<close>
  raises the configuration error of an empty field ("Coin not set" first, then "Callback
  URL not set", then "Address not set") and returns the world as it was: nothing was
  sent, the network was not consulted. The method is \<^verbatim>\<open>async\<close>, so the error reaches the
  caller as a rejected promise; the model does not tell that from a throw.
\<close>

theorem getAddress_configuration_errors:
  "(coin this = [] \<longrightarrow> getAddress P this w = (Inl (Error ''Coin not set''), this, w)) \<and>
   (coin this \<noteq> [] \<and> callbackUrl this = [] \<longrightarrow>
      getAddress P this w = (Inl (Error ''Callback URL not set''), this, w)) \<and>
   (coin this \<noteq> [] \<and> callbackUrl this \<noteq> [] \<and> ownAddress this = [] \<longrightarrow>
      getAddress P this w = (Inl (Error ''Address not set''), this, w)) \<and>
   (coin this = [] \<or> callbackUrl this = [] \<or> ownAddress this = [] \<longrightarrow>
      requests (snd (snd (getAddress P this w))) = requests w)"
  by (simp add: getAddress_def)

text \<open>The example instance with each of the three fields emptied in turn: the error of
  that field, the instance and the world as they were, no request.\<close>

theorem getAddress_configuration_errors_witness:
  "getAddress (example_platform (Responded 200 None)) (example_instance\<lparr>coin := []\<rparr>) world0
     = (Inl (Error ''Coin not set''), example_instance\<lparr>coin := []\<rparr>, world0) \<and>
   coin example_instance \<noteq> [] \<and>
   getAddress (example_platform (Responded 200 None)) (example_instance\<lparr>callbackUrl := []\<rparr>) world0
     = (Inl (Error ''Callback URL not set''), example_instance\<lparr>callbackUrl := []\<rparr>, world0) \<and>
   callbackUrl example_instance \<noteq> [] \<and>
   getAddress (example_platform (Responded 200 None)) (example_instance\<lparr>ownAddress := []\<rparr>) world0
     = (Inl (Error ''Address not set''), example_instance\<lparr>ownAddress := []\<rparr>, world0) \<and>
   requests (snd (snd (getAddress (example_platform (Responded 200 None))
                         (example_instance\<lparr>callbackUrl := []\<rparr>) world0))) = []"
proof -
  have fields: "coin example_instance \<noteq> [] \<and> callbackUrl example_instance \<noteq> [] \<and>
                requests world0 = []"
    by (simp add: example_instance_def world0_def)
  show ?thesis
    using getAddress_configuration_errors
            [of "example_instance\<lparr>coin := []\<rparr>" "example_platform (Responded 200 None)" world0]
          getAddress_configuration_errors
            [of "example_instance\<lparr>callbackUrl := []\<rparr>" "example_platform (Responded 200 None)" world0]
          getAddress_configuration_errors
            [of "example_instance\<lparr>ownAddress := []\<rparr>" "example_platform (Responded 200 None)" world0]
          fields
    by simp
qed

lemma getAddress_Inr:
  assumes "fst (getAddress P this w) = Inr a"
  shows "fst (snd (getAddress P this w)) = this\<lparr>paymentAddress := a\<rparr>"
  using assms
  by (auto simp: getAddress_def Let_def split: if_splits option.splits prod.splits sum.splits)

lemma getAddress_Inl:
  assumes "fst (getAddress P this w) = Inl e"
  shows "fst (snd (getAddress P this w)) = this"
  using assms
  by (auto simp: getAddress_def Let_def split: if_splits option.splits prod.splits sum.splits)

lemma checkLogs_instance: "fst (snd (checkLogs P this w)) = this"
  by (auto simp: checkLogs_def Let_def split: if_splits option.splits prod.splits sum.splits)

lemma fetchQRCode_instance: "fst (snd (fetchQRCode P this val sz w)) = this"
  by (auto simp: fetchQRCode_def Let_def split: if_splits option.splits prod.splits sum.splits)

text \<open>
  C10. No operation on an instance changes \<^verbatim>\<open>coin\<close>, \<^verbatim>\<open>ownAddress\<close>, \<^verbatim>\<open>callbackUrl\<close>,
  \<^verbatim>\<open>parameters\<close> or \<^verbatim>\<open>caParams\<close>. \<open>checkLogs\<close> and \<open>fetchQRCode\<close> leave the whole instance
  as it was; \<open>getAddress\<close> leaves it as it was when it fails, and when it succeeds changes
  \<^verbatim>\<open>paymentAddress\<close> alone, to the address it returns.
\<close>

theorem operations_frame:
  "fst (snd (checkLogs P this w)) = this \<and>
   fst (snd (fetchQRCode P this val sz w)) = this \<and>
   (fst (getAddress P this w) = Inr a \<longrightarrow>
      fst (snd (getAddress P this w)) = this\<lparr>paymentAddress := a\<rparr>) \<and>
   (fst (getAddress P this w) = Inl e \<longrightarrow> fst (snd (getAddress P this w)) = this) \<and>
   coin (fst (snd (getAddress P this w))) = coin this \<and>
   ownAddress (fst (snd (getAddress P this w))) = ownAddress this \<and>
   callbackUrl (fst (snd (getAddress P this w))) = callbackUrl this \<and>
   parameters (fst (snd (getAddress P this w))) = parameters this \<and>
   caParams (fst (snd (getAddress P this w))) = caParams this"
proof -
  have "fst (snd (getAddress P this w)) = this \<or>
        (\<exists>x. fst (snd (getAddress P this w)) = this\<lparr>paymentAddress := x\<rparr>)"
    using getAddress_Inr [of P this w] getAddress_Inl [of P this w]
    by (cases "fst (getAddress P this w)") auto
  then have "coin (fst (snd (getAddress P this w))) = coin this \<and>
   ownAddress (fst (snd (getAddress P this w))) = ownAddress this \<and>
   callbackUrl (fst (snd (getAddress P this w))) = callbackUrl this \<and>
   parameters (fst (snd (getAddress P this w))) = parameters this \<and>
   caParams (fst (snd (getAddress P this w))) = caParams this"
    by auto
  then show ?thesis
    using getAddress_Inr [of P this w a] getAddress_Inl [of P this w e]
    by (simp add: checkLogs_instance fetchQRCode_instance)
qed

lemma getAddress_example:
  "getAddress (example_platform example_answer) example_instance world0 =
     (Inr (JStr ''0xIN''),
      example_instance\<lparr>paymentAddress := JStr ''0xIN''\<rparr>,
      snd (snd (getAddress (example_platform example_answer) example_instance world0)))"
proof -
  have "fst (getAddress (example_platform example_answer) example_instance world0) = Inr (JStr ''0xIN'')"
    by (simp add: getAddress_def example_instance_def example_platform_def example_answer_def
          makeRequest_cases query_strings_def fetchData_def Let_def res_ok_def
          isValidSuccessResp_def has_key_def get_prop_def append_pair_def split: prod.splits)
  moreover from this
  have "fst (snd (getAddress (example_platform example_answer) example_instance world0))
          = example_instance\<lparr>paymentAddress := JStr ''0xIN''\<rparr>"
    by (rule getAddress_Inr)
  ultimately show ?thesis
    by (metis prod.collapse)
qed

text \<open>For C10, a call of \<open>getAddress\<close> that succeeds and one that fails.\<close>

theorem operations_frame_witness:
  "fst (getAddress (example_platform example_answer) example_instance world0) = Inr (JStr ''0xIN'') \<and>
   fst (snd (getAddress (example_platform example_answer) example_instance world0))
     = example_instance\<lparr>paymentAddress := JStr ''0xIN''\<rparr> \<and>
   fst (getAddress (example_platform example_answer) (example_instance\<lparr>callbackUrl := []\<rparr>) world0)
     = Inl (Error ''Callback URL not set'') \<and>
   fst (snd (getAddress (example_platform example_answer) (example_instance\<lparr>callbackUrl := []\<rparr>) world0))
     = example_instance\<lparr>callbackUrl := []\<rparr>"
proof -
  have ok: "fst (getAddress (example_platform example_answer) example_instance world0)
              = Inr (JStr ''0xIN'')"
    using getAddress_example by (metis fst_conv)
  have bad: "fst (getAddress (example_platform example_answer) (example_instance\<lparr>callbackUrl := []\<rparr>) world0)
               = Inl (Error ''Callback URL not set'')"
    by (simp add: getAddress_def example_instance_def)
  show ?thesis
    using operations_frame [of "example_platform example_answer" example_instance world0
                               JNull JNull "JStr ''0xIN''" TypeError]
          operations_frame [of "example_platform example_answer"
                               "example_instance\<lparr>callbackUrl := []\<rparr>" world0
                               JNull JNull JNull "Error ''Callback URL not set''"]
          ok bad
    by simp
qed

















section \<open>Properties of the coin listing\<close>

lemma fetchData_Inr_object:
  assumes "fst (fetchData P u fp w) = Inr r"
  shows "r \<noteq> JUndefined \<and> r \<noteq> JNull"
proof -
  from assms obtain resp where "set_prop resp ''status'' (JStr ''success'') = Inr r"
    by (rule fetchData_Inr_cases)
  then show ?thesis
    by (cases resp) auto
qed

lemma fetchData_not_ok:
  assumes "net P (requests w) (u, fp) = Responded st body" and "\<not> res_ok st"
  shows "\<exists>e. fst (fetchData P u fp w) = Inl e"
proof (cases body)
  case None
  with assms(1) show ?thesis
    by (simp add: fetchData_fst_unparsable)
next
  case (Some resp)
  with assms(1) have n: "net P (requests w) (u, fp) = Responded st (Some resp)"
    by simp
  show ?thesis
    unfolding fetchData_fst_Responded [OF n] using assms(2) by simp
qed

lemma fetchServiceInfo_fetchData:
  "fetchServiceInfo P False w
     = fetchData P (request_url ''info'' None [(''prices'', ''0'')]) GET_init w"
  by (simp add: fetchServiceInfo_def makeRequest_cases query_strings_def get_prop_def)

text \<open>The outcome of \<open>fetchSupportedCoins\<close>, by the outcome of the info call and the room
  on the call stack.\<close>

lemma fetchSupportedCoins_fst:
  "fst (fetchSupportedCoins P w) =
     (case fst (fetchServiceInfo P False w) of
        Inl e \<Rightarrow> Inr None
      | Inr r \<Rightarrow>
          if nesting (JObj (AList.delete ''fee_tiers'' (own_entries r))) \<le> flatten_room P
          then Inr (Some (foldl record_coin empty_object
                            (coin_records [] (JObj (AList.delete ''fee_tiers'' (own_entries r))))))
          else Inl RangeError)"
proof -
  obtain x w' where call: "fetchServiceInfo P False w = (x, w')"
    by (cases "fetchServiceInfo P False w")
  show ?thesis
  proof (cases x)
    case (Inl e)
    with call show ?thesis
      by (simp add: fetchSupportedCoins_def)
  next
    case (Inr r)
    let ?info = "JObj (AList.delete ''fee_tiers'' (own_entries r))"
    have obj: "is_object ?info"
      by (simp add: is_object_def)
    from Inr call have "fst (fetchServiceInfo P False w) = Inr r"
      by simp
    then have r: "r \<noteq> JUndefined \<and> r \<noteq> JNull"
      unfolding fetchServiceInfo_fetchData by (rule fetchData_Inr_object)
    show ?thesis
    proof (cases "nesting ?info \<le> flatten_room P")
      case True
      with obj have "processServiceInfo (flatten_room P) ?info empty_object []
                       = (None, foldl record_coin empty_object (coin_records [] ?info))"
        by (rule processServiceInfo_records)
      with True Inr call r show ?thesis
        by (simp add: fetchSupportedCoins_def rest_without_def)
    next
      case False
      then have "fst (processServiceInfo (flatten_room P) ?info empty_object []) = Some RangeError"
        by (simp add: processServiceInfo_thrown [OF obj])
      then obtain coins
        where "processServiceInfo (flatten_room P) ?info empty_object [] = (Some RangeError, coins)"
        by (cases "processServiceInfo (flatten_room P) ?info empty_object []") simp
      with False Inr call r show ?thesis
        by (simp add: fetchSupportedCoins_def rest_without_def)
    qed
  qed
qed

lemma fetchSupportedCoins_requests:
  "requests (snd (fetchSupportedCoins P w))
     = requests w @ [(request_url ''info'' None [(''prices'', ''0'')], GET_init)]"
proof -
  have "snd (fetchSupportedCoins P w) = snd (fetchServiceInfo P False w)"
    by (simp add: fetchSupportedCoins_def split: prod.splits sum.splits option.splits)
  then show ?thesis
    by (simp add: fetchServiceInfo_fetchData fetchData_requests)
qed

lemma deep_object: "is_object (deep n) \<and> \<not> has_key ''ticker'' (deep n)"
  by (cases n) (simp_all add: is_object_def has_key_def)

lemma nesting_deep: "nesting (deep n) = Suc n"
  by (induction n) (simp_all add: nesting_JObj deep_object)

lemma fetchServiceInfo_deep:
  "fst (fetchServiceInfo ((example_platform (Responded 200 (Some (deep (Suc n)))))\<lparr>flatten_room := room\<rparr>)
          False world0)
     = Inr (JObj [(''chain'', deep n), (''status'', JStr ''success'')])"
  by (simp add: fetchServiceInfo_fetchData fetchData_def Let_def example_platform_def res_ok_def
        isValidSuccessResp_def has_key_def get_prop_def)

text \<open>
  C3, as the claim states it, fails: \<open>fetchSupportedCoins\<close> raises when the info call
  succeeds and its answer is nested deeper than the call stack has room for. The
  flattening stands after the \<^verbatim>\<open>try\<close>/\<^verbatim>\<open>catch\<close>, so the RangeError of its recursion
  reaches the caller. Whatever the room, there is such an answer: \<open>room + 1\<close> objects
  nested in one another.
\<close>

theorem fetchSupportedCoins_raises_counterexample:
  "\<forall>room. fst (fetchSupportedCoins
                 ((example_platform (Responded 200 (Some (deep (Suc room)))))\<lparr>flatten_room := room\<rparr>)
                 world0)
            = Inl RangeError"
proof
  fix room
  have "\<not> is_object (JStr ''success'')"
    by (simp add: is_object_def)
  then have "nesting (JObj [(''chain'', deep room), (''status'', JStr ''success'')]) = Suc (Suc room)"
    by (simp add: nesting_JObj deep_object nesting_deep)
  then show "fst (fetchSupportedCoins
                 ((example_platform (Responded 200 (Some (deep (Suc room)))))\<lparr>flatten_room := room\<rparr>)
                 world0)
            = Inl RangeError"
    unfolding fetchSupportedCoins_fst fetchServiceInfo_deep by simp
qed

text \<open>
  C3, amended. When the info call fails (the network call rejected, a body that is not
  JSON, a status that is not 2xx among the ways), \<open>fetchSupportedCoins\<close> raises nothing
  and returns \<^verbatim>\<open>null\<close>. When the info call succeeds, the top-level \<^verbatim>\<open>fee_tiers\<close> key is
  taken out of the answer and the rest is flattened: on a call stack with room for the
  nesting of the answer the result is the flattened coin mapping, and on an answer nested
  deeper than that \<open>fetchSupportedCoins\<close> raises the RangeError of the flattener, which is
  the only exception it raises.
\<close>

theorem fetchSupportedCoins_outcome:
  "(fst (fetchServiceInfo P False w) = Inl e' \<longrightarrow> fst (fetchSupportedCoins P w) = Inr None) \<and>
   (net P (requests w) (last (requests (snd (fetchSupportedCoins P w)))) = Rejected e' \<longrightarrow>
      fst (fetchSupportedCoins P w) = Inr None) \<and>
   (net P (requests w) (last (requests (snd (fetchSupportedCoins P w)))) = Responded st None \<longrightarrow>
      fst (fetchSupportedCoins P w) = Inr None) \<and>
   (net P (requests w) (last (requests (snd (fetchSupportedCoins P w)))) = Responded st body \<and>
    \<not> res_ok st \<longrightarrow>
      fst (fetchSupportedCoins P w) = Inr None) \<and>
   (fst (fetchServiceInfo P False w) = Inr r \<and>
    nesting (JObj (AList.delete ''fee_tiers'' (own_entries r))) \<le> flatten_room P \<longrightarrow>
      fst (fetchSupportedCoins P w)
        = Inr (Some (foldl record_coin empty_object
                       (coin_records [] (JObj (AList.delete ''fee_tiers'' (own_entries r))))))) \<and>
   (fst (fetchServiceInfo P False w) = Inr r \<and>
    flatten_room P < nesting (JObj (AList.delete ''fee_tiers'' (own_entries r))) \<longrightarrow>
      fst (fetchSupportedCoins P w) = Inl RangeError) \<and>
   (fst (fetchSupportedCoins P w) = Inl e \<longrightarrow>
      e = RangeError \<and>
      (\<exists>r. fst (fetchServiceInfo P False w) = Inr r \<and>
           flatten_room P < nesting (JObj (AList.delete ''fee_tiers'' (own_entries r)))))"
proof -
  let ?u = "request_url ''info'' None [(''prices'', ''0'')]"
  have info: "fst (fetchServiceInfo P False w) = fst (fetchData P ?u GET_init w)"
    by (simp add: fetchServiceInfo_fetchData)
  have last: "last (requests (snd (fetchSupportedCoins P w))) = (?u, GET_init)"
    by (simp add: fetchSupportedCoins_requests)
  have failed: "fst (fetchSupportedCoins P w) = Inr None"
    if "fst (fetchServiceInfo P False w) = Inl x" for x
    using that by (simp add: fetchSupportedCoins_fst)
  have rejected: "fst (fetchSupportedCoins P w) = Inr None"
    if "net P (requests w) (?u, GET_init) = Rejected e'"
    using that by (simp add: fetchSupportedCoins_fst info fetchData_fst_Rejected)
  have unparsable: "fst (fetchSupportedCoins P w) = Inr None"
    if "net P (requests w) (?u, GET_init) = Responded st None"
    using that by (simp add: fetchSupportedCoins_fst info fetchData_fst_unparsable)
  have not_ok: "fst (fetchSupportedCoins P w) = Inr None"
    if "net P (requests w) (?u, GET_init) = Responded st body \<and> \<not> res_ok st"
  proof -
    from that obtain x where "fst (fetchData P ?u GET_init w) = Inl x"
      using fetchData_not_ok [of P w ?u GET_init st body] by auto
    then show ?thesis
      by (simp add: failed info)
  qed
  have flattened: "fst (fetchSupportedCoins P w)
        = Inr (Some (foldl record_coin empty_object
                       (coin_records [] (JObj (AList.delete ''fee_tiers'' (own_entries r))))))"
    if "fst (fetchServiceInfo P False w) = Inr r \<and>
        nesting (JObj (AList.delete ''fee_tiers'' (own_entries r))) \<le> flatten_room P"
    using that by (simp add: fetchSupportedCoins_fst)
  have raised: "fst (fetchSupportedCoins P w) = Inl RangeError"
    if "fst (fetchServiceInfo P False w) = Inr r \<and>
        flatten_room P < nesting (JObj (AList.delete ''fee_tiers'' (own_entries r)))"
    using that by (simp add: fetchSupportedCoins_fst)
  have only: "e = RangeError \<and>
      (\<exists>r. fst (fetchServiceInfo P False w) = Inr r \<and>
           flatten_room P < nesting (JObj (AList.delete ''fee_tiers'' (own_entries r))))"
    if "fst (fetchSupportedCoins P w) = Inl e"
    using that unfolding fetchSupportedCoins_fst
    by (cases "fst (fetchServiceInfo P False w)") (auto split: if_splits)
  from failed [of e'] rejected unparsable not_ok flattened raised only show ?thesis
    unfolding last by blast
qed

text \<open>A rejected network call and a bad gateway give \<^verbatim>\<open>null\<close>; the example answer gives
  its two coins, and nothing for the fee tiers or the status, on a call stack with room
  for it, and a RangeError on a stack with room for one call.\<close>

theorem fetchSupportedCoins_outcome_witness:
  "fst (fetchSupportedCoins (example_platform (Rejected TypeError)) world0) = Inr None \<and>
   fst (fetchSupportedCoins (example_platform (Responded 502 None)) world0) = Inr None \<and>
   fst (fetchSupportedCoins (example_platform (Responded 200 (Some example_service_info))) world0)
     = Inr (Some \<lparr>own = Map.empty(''btc'' \<mapsto> JStr ''btc'', ''polygon_usdt'' \<mapsto> JStr ''usdt''),
                  proto = ObjectPrototype\<rparr>) \<and>
   fst (fetchSupportedCoins
          ((example_platform (Responded 200 (Some example_service_info)))\<lparr>flatten_room := 1\<rparr>) world0)
     = Inl RangeError"
proof -
  let ?r = "JObj (AList.update ''status'' (JStr ''success'') (own_entries example_service_info))"
  let ?info = "JObj (AList.delete ''fee_tiers'' (own_entries ?r))"
  have rejected: "net (example_platform (Rejected TypeError)) ws req = Rejected TypeError" for ws req
    by (simp add: example_platform_def)
  have unparsable: "net (example_platform (Responded 502 None)) ws req = Responded 502 None" for ws req
    by (simp add: example_platform_def)
  have answer: "fst (fetchServiceInfo
                       ((example_platform (Responded 200 (Some example_service_info)))\<lparr>flatten_room := n\<rparr>)
                       False world0) = Inr ?r" for n
    by (simp add: fetchServiceInfo_fetchData fetchData_def Let_def
          example_platform_def example_service_info_def res_ok_def isValidSuccessResp_def
          has_key_def get_prop_def)
  have room: "(example_platform (Responded 200 (Some example_service_info)))\<lparr>flatten_room := 1000\<rparr>
                = example_platform (Responded 200 (Some example_service_info))"
    by (simp add: example_platform_def)
  have nesting: "nesting ?info = 2"
    by (simp add: example_service_info_def nesting_JObj is_object_def has_key_def)
  have records: "foldl record_coin empty_object (coin_records [] ?info)
                   = \<lparr>own = Map.empty(''btc'' \<mapsto> JStr ''btc'', ''polygon_usdt'' \<mapsto> JStr ''usdt''),
                      proto = ObjectPrototype\<rparr>"
    by (simp add: example_service_info_def coin_records_JObj is_object_def has_key_def
          get_prop_def record_coin_def assign_def empty_object_def)
  have a: "fst (fetchSupportedCoins (example_platform (Rejected TypeError)) world0) = Inr None"
    using fetchSupportedCoins_outcome
            [of "example_platform (Rejected TypeError)" world0 TypeError 502 None JNull TypeError]
          rejected
    by blast
  have b: "fst (fetchSupportedCoins (example_platform (Responded 502 None)) world0) = Inr None"
    using fetchSupportedCoins_outcome
            [of "example_platform (Responded 502 None)" world0 TypeError 502 None JNull TypeError]
          unparsable
    by blast
  have "flatten_room (example_platform (Responded 200 (Some example_service_info))) = 1000"
    by (simp add: example_platform_def)
  then have c: "fst (fetchSupportedCoins (example_platform (Responded 200 (Some example_service_info))) world0)
             = Inr (Some (foldl record_coin empty_object (coin_records [] ?info)))"
    using fetchSupportedCoins_outcome
            [of "example_platform (Responded 200 (Some example_service_info))" world0
                TypeError 502 None ?r TypeError]
          answer [of 1000] nesting
    unfolding room by simp
  have "flatten_room ((example_platform (Responded 200 (Some example_service_info)))\<lparr>flatten_room := 1\<rparr>)
          = 1"
    by simp
  then have d: "fst (fetchSupportedCoins
                  ((example_platform (Responded 200 (Some example_service_info)))\<lparr>flatten_room := 1\<rparr>)
                  world0)
             = Inl RangeError"
    using fetchSupportedCoins_outcome
            [of "(example_platform (Responded 200 (Some example_service_info)))\<lparr>flatten_room := 1\<rparr>"
                world0 TypeError 502 None ?r TypeError]
          answer [of 1] nesting
    by simp
  from a b c d records show ?thesis
    by simp
qed

end
